theory Spec2Isabelle
  imports Complex_Main
begin

section \<open>The classifier engine of watchmal/engine/engine\_classifier.py\<close>

text \<open>
  The engine is orchestration code around a deep-learning framework and an attribution
  library. The embedding keeps the engine's own control flow, bookkeeping and file naming,
  and takes every framework call as a parameter (the record \<open>torch\<close> below) that may
  raise. Python floats are modelled as reals: only their order and their sums matter to the
  engine's bookkeeping; rounding and NaN are outside the model.
\<close>

subsection \<open>Exceptions\<close>

datatype error =
    StopIteration
  | AttributeError
  | ZeroDivisionError
  | KeyError
  | IndexError
  | FileNotFoundError
  | RuntimeError
  | LibraryError nat

text \<open>Sequencing of calls that may raise: the first exception ends the computation.\<close>

definition thenE :: "error + 'a \<Rightarrow> ('a \<Rightarrow> error + 'b) \<Rightarrow> error + 'b" where
  "thenE r f = (case r of Inl e \<Rightarrow> Inl e | Inr x \<Rightarrow> f x)"

subsection \<open>Data\<close>

text \<open>
  A checkpoint is the dict handed to \<open>torch.save\<close>: string keys, and a value that is
  the iteration count, the optimizer's state dict or the model's state dict.
\<close>

datatype ('w, 'o) ckpt_value = GlobalStep int | OptimizerState 'o | StateDict 'w

type_synonym ('w, 'o) checkpoint = "string \<Rightarrow> ('w, 'o) ckpt_value option"

text \<open>
  A batch of a data loader: \<open>data\<close> is a tensor whose axis 0 is the batch axis; it is
  kept as a list (axis 0) of lists (axis 1) of the remaining slices \<open>'p\<close>.
\<close>

record 'p batch =
  b_data :: "'p list list"
  b_labels :: "int list"
  b_indices :: "int list"

text \<open>What \<open>forward\<close> returns: the dict with loss, accuracy, predictions and softmax.\<close>

record fwd_result =
  r_loss :: real
  r_accuracy :: real
  r_predicted_labels :: "int list"
  r_softmax :: "real list list"

text \<open>The rows of the two CSV logs.\<close>

record train_row =
  t_iteration :: int
  t_epoch :: int
  t_loss :: real
  t_accuracy :: real

record val_row =
  v_iteration :: int
  v_epoch :: int
  v_loss :: real
  v_accuracy :: real
  v_saved_best :: int

text \<open>
  The calls into the framework and the messages printed, in order. A forward call is
  recorded with its flag and the loss and accuracy it returned, a call of the attribution
  library with its target, a save with its filename.
\<close>

datatype event =
    ModelTrain
  | ModelEval
  | NewIterator string nat
  | SetEpoch int
  | ForwardCall bool real real
  | BackwardCall
  | SchedulerStep
  | TorchSave string
  | GradientCall "real list list"
  | NpSave string
  | Print string

text \<open>The arrays \<open>np.save\<close> writes in \<open>evaluate\<close>.\<close>

datatype 'p npy =
    IntArray "int list"
  | RowArray "real list list"
  | NestedRowArray "real list list list"
  | SliceArray "'p list list"

text \<open>
  The state: the attributes of the engine object (\<open>self\<close>), then the world it acts on
  (checkpoint files, array files, the store of iterator objects, the logs, the trace).
  \<open>iteration\<close> is \<open>None\<close> while the attribute does not exist: \<open>__init__\<close> does not
  set it, \<open>train\<close> and \<open>restore_state_from_file\<close> do. \<open>weights\<close> is what
  \<open>model_accs.state_dict()\<close> returns, \<open>model_name\<close> what \<open>model._get_name()\<close> returns.
  \<open>loss\<close> is the loss tensor of the last \<open>forward\<close>: its value and the data and labels
  its graph was built from. An iterator object lives in the store \<open>iters\<close> under its
  address, with the items it has not yet yielded; an item is a batch or the exception that
  fetching it raises.
\<close>

record ('w, 'o, 's, 'p) engine =
  dirpath :: string
  rank :: nat
  is_distributed :: bool
  model_name :: string
  weights :: 'w
  training :: bool
  optimizer :: "'o option"
  scheduler :: "'s option"
  data_loaders :: "string \<Rightarrow> (error + 'p batch) list option"
  epoch :: int
  step :: int
  iteration :: "int option"
  best_validation_loss :: real
  data :: "'p list list option"
  labels :: "int list option"
  loss :: "(real \<times> 'p list list \<times> int list) option"
  files :: "string \<Rightarrow> ('w, 'o) checkpoint option"
  npy_files :: "string \<Rightarrow> 'p npy option"
  iters :: "nat \<Rightarrow> (error + 'p batch) list option"
  next_iter :: nat
  train_log :: "train_row list"
  val_log :: "val_row list"
  trace :: "event list"

text \<open>The two composites of the attribution library the engine uses.\<close>

datatype composite = EpsilonAlpha2Beta1 | EpsilonPlusFlat

text \<open>
  The framework, as parameters. \<open>model_forward w training data labels\<close> is the model
  call together with criterion, softmax and accuracy; \<open>optim_backward\<close> is
  \<open>zero_grad\<close>, \<open>loss.backward\<close> and \<open>optimizer.step\<close>; \<open>all_gather\<close> returns the
  values of one scalar metric on all processes and \<open>all_gather_array\<close> the
  concatenation of one result array over all processes; \<open>load_weights_ok\<close> and
  \<open>load_optim_ok\<close> are the key and shape checks of \<open>load_state_dict\<close>;
  \<open>attributor composite w data target\<close> is the call of the attribution library's
  \<open>Gradient\<close> object inside its context manager, returning the model output and an
  attribution tensor.
\<close>

record ('w, 'o, 's, 'p) torch =
  model_forward :: "'w \<Rightarrow> bool \<Rightarrow> 'p list list \<Rightarrow> int list \<Rightarrow> error + ('w \<times> fwd_result)"
  optim_backward :: "'w \<Rightarrow> 'o \<Rightarrow> real \<times> 'p list list \<times> int list \<Rightarrow> error + ('w \<times> 'o)"
  sched_step :: "'s \<Rightarrow> 'o option \<Rightarrow> error + ('s \<times> 'o option)"
  all_gather :: "real \<Rightarrow> error + real list"
  all_gather_array :: "'p npy \<Rightarrow> error + 'p npy"
  load_weights_ok :: "'w \<Rightarrow> 'w \<Rightarrow> bool"
  load_optim_ok :: "'o \<Rightarrow> 'o \<Rightarrow> bool"
  attributor :: "composite \<Rightarrow> 'w \<Rightarrow> 'p list list \<Rightarrow> real list list \<Rightarrow> error + (real list list \<times> 'p list list)"

definition emit :: "event \<Rightarrow> ('w, 'o, 's, 'p) engine \<Rightarrow> ('w, 'o, 's, 'p) engine" where
  "emit ev s = s\<lparr>trace := trace s @ [ev]\<rparr>"

subsection \<open>Construction and configuration\<close>

text \<open>
  \<open>__init__\<close>: the counters, the best validation loss \<open>1.0e10\<close>, no optimizer and no
  scheduler, no data loaders. The world starts empty. \<open>distributed\<close> is whether the model
  is wrapped for multi-process training.
\<close>

definition engine_init ::
  "'w \<Rightarrow> string \<Rightarrow> bool \<Rightarrow> nat \<Rightarrow> string \<Rightarrow> ('w, 'o, 's, 'p) engine" where
  "engine_init w mname distributed rk dump_path =
     \<lparr>dirpath = dump_path, rank = rk, is_distributed = distributed, model_name = mname,
      weights = w, training = True, optimizer = None, scheduler = None,
      data_loaders = Map.empty, epoch = 0, step = 0, iteration = None,
      best_validation_loss = 10 ^ 10, data = None, labels = None, loss = None,
      files = Map.empty, npy_files = Map.empty, iters = Map.empty, next_iter = 0,
      train_log = [], val_log = [], trace = []\<rparr>"

definition configure_optimizers ::
  "('w, 'o, 's, 'p) engine \<Rightarrow> 'o \<Rightarrow> ('w, 'o, 's, 'p) engine" where
  "configure_optimizers s opt = s\<lparr>optimizer := Some opt\<rparr>"

definition configure_scheduler ::
  "('w, 'o, 's, 'p) engine \<Rightarrow> 's \<Rightarrow> ('w, 'o, 's, 'p) engine" where
  "configure_scheduler s sch = emit (Print ''Successfully set up Scheduler'') (s\<lparr>scheduler := Some sch\<rparr>)"

definition configure_data_loaders ::
  "('w, 'o, 's, 'p) engine \<Rightarrow> (string \<times> (error + 'p batch) list) list \<Rightarrow> ('w, 'o, 's, 'p) engine" where
  "configure_data_loaders s loaders =
     fold (\<lambda>(name, loader) s'. s'\<lparr>data_loaders := (data_loaders s')(name \<mapsto> loader)\<rparr>) loaders s"

subsection \<open>Saving and loading models\<close>

text \<open>
  \<open>save_state\<close>: the filename is formatted first; the dict literal then reads
  \<open>self.iteration\<close> and calls \<open>self.optimizer.state_dict()\<close>, each an AttributeError
  when the attribute is missing or \<open>None\<close>; \<open>torch.save\<close> writes the dict.
\<close>

definition save_filename :: "('w, 'o, 's, 'p) engine \<Rightarrow> string \<Rightarrow> string" where
  "save_filename s name = dirpath s @ model_name s @ name @ ''.pth''"

definition save_state ::
  "('w, 'o, 's, 'p) engine \<Rightarrow> string \<Rightarrow> error + (string \<times> ('w, 'o, 's, 'p) engine)" where
  "save_state s name =
     (let filename = save_filename s name;
          model_dict = weights s
      in case iteration s of
           None \<Rightarrow> Inl AttributeError
         | Some it \<Rightarrow>
            (case optimizer s of
               None \<Rightarrow> Inl AttributeError
             | Some opt \<Rightarrow>
                (let ckpt = [''global_step'' \<mapsto> GlobalStep it,
                             ''optimizer'' \<mapsto> OptimizerState opt,
                             ''state_dict'' \<mapsto> StateDict model_dict];
                     s1 = emit (TorchSave filename) (s\<lparr>files := (files s)(filename \<mapsto> ckpt)\<rparr>);
                     s2 = emit (Print (''Saved checkpoint as: '' @ filename)) s1
                 in Inr (filename, s2))))"

text \<open>
  \<open>restore_state_from_file\<close>: open and load the file, load the weights, load the
  optimizer state if the engine has an optimizer, set the iteration count. A missing file,
  a missing key and a state dict the model or optimizer rejects raise. A value of another
  kind under a key is not what \<open>save_state\<close> writes; the model stops there (the counter
  of the model is an integer and cannot be bound to a foreign object).
\<close>

definition restore_state_from_file ::
  "('w, 'o, 's, 'p) torch \<Rightarrow> ('w, 'o, 's, 'p) engine \<Rightarrow> string \<Rightarrow> error + ('w, 'o, 's, 'p) engine" where
  "restore_state_from_file lib s weight_file =
     (case files s weight_file of
        None \<Rightarrow> Inl FileNotFoundError
      | Some checkpoint \<Rightarrow>
         (let s0 = emit (Print (''Restoring state from '' @ weight_file)) s in
          case checkpoint ''state_dict'' of
            None \<Rightarrow> Inl KeyError
          | Some (StateDict w) \<Rightarrow>
             if \<not> load_weights_ok lib (weights s0) w then Inl RuntimeError
             else
              thenE
               (let s1 = s0\<lparr>weights := w\<rparr> in
                case optimizer s1 of
                  None \<Rightarrow> Inr s1
                | Some cur \<Rightarrow>
                   (case checkpoint ''optimizer'' of
                      None \<Rightarrow> Inl KeyError
                    | Some (OptimizerState opt) \<Rightarrow>
                       if load_optim_ok lib cur opt then Inr (s1\<lparr>optimizer := Some opt\<rparr>)
                       else Inl RuntimeError
                    | Some _ \<Rightarrow> Inl RuntimeError))
               (\<lambda>s2. case checkpoint ''global_step'' of
                        None \<Rightarrow> Inl KeyError
                      | Some (GlobalStep it) \<Rightarrow>
                         Inr (emit (Print ''Restoration complete.'') (s2\<lparr>iteration := Some it\<rparr>))
                      | Some _ \<Rightarrow> Inl RuntimeError)
          | Some _ \<Rightarrow> Inl RuntimeError))"

definition restore_best_state ::
  "('w, 'o, 's, 'p) torch \<Rightarrow> ('w, 'o, 's, 'p) engine \<Rightarrow> error + ('w, 'o, 's, 'p) engine" where
  "restore_best_state lib s = restore_state_from_file lib s (save_filename s ''BEST'')"

subsection \<open>Forward and backward pass\<close>

text \<open>
  \<open>forward\<close> reads \<open>self.data\<close> and \<open>self.labels\<close> (\<open>None\<close> has no method
  \<open>to\<close>), calls the model and stores the loss tensor in \<open>self.loss\<close>. \<open>backward\<close>
  calls \<open>self.optimizer.zero_grad()\<close> first, then \<open>self.loss.backward()\<close>.
\<close>

definition forward ::
  "('w, 'o, 's, 'p) torch \<Rightarrow> ('w, 'o, 's, 'p) engine \<Rightarrow> bool \<Rightarrow>
     error + (fwd_result \<times> ('w, 'o, 's, 'p) engine)" where
  "forward lib s train_flag =
     (case data s of
        None \<Rightarrow> Inl AttributeError
      | Some d \<Rightarrow>
         (case labels s of
            None \<Rightarrow> Inl AttributeError
          | Some l \<Rightarrow>
             (case model_forward lib (weights s) (training s) d l of
                Inl e \<Rightarrow> Inl e
              | Inr (w', result) \<Rightarrow>
                 Inr (result, emit (ForwardCall train_flag (r_loss result) (r_accuracy result))
                                (s\<lparr>weights := w', loss := Some (r_loss result, d, l)\<rparr>)))))"

definition backward ::
  "('w, 'o, 's, 'p) torch \<Rightarrow> ('w, 'o, 's, 'p) engine \<Rightarrow> error + ('w, 'o, 's, 'p) engine" where
  "backward lib s =
     (case optimizer s of
        None \<Rightarrow> Inl AttributeError
      | Some opt \<Rightarrow>
         (case loss s of
            None \<Rightarrow> Inl AttributeError
          | Some g \<Rightarrow>
             (case optim_backward lib (weights s) opt g of
                Inl e \<Rightarrow> Inl e
              | Inr (w', opt') \<Rightarrow>
                 Inr (emit BackwardCall (s\<lparr>weights := w', optimizer := Some opt'\<rparr>)))))"

subsection \<open>Iterators\<close>

text \<open>
  \<open>iter(self.data_loaders[name])\<close> creates a new iterator object at a fresh address;
  \<open>next\<close> on an address yields the next item of that object and advances it, or raises
  StopIteration when the object is exhausted (and it stays exhausted). An address without
  an object does not arise from Python code; the model gives it a library error.
\<close>

definition py_iter ::
  "('w, 'o, 's, 'p) engine \<Rightarrow> string \<Rightarrow> error + (nat \<times> ('w, 'o, 's, 'p) engine)" where
  "py_iter s name =
     (case data_loaders s name of
        None \<Rightarrow> Inl KeyError
      | Some items \<Rightarrow>
         (let a = next_iter s
          in Inr (a, emit (NewIterator name a)
                       (s\<lparr>iters := (iters s)(a \<mapsto> items), next_iter := a + 1\<rparr>))))"

definition py_next ::
  "('w, 'o, 's, 'p) engine \<Rightarrow> nat \<Rightarrow> error + ('p batch \<times> ('w, 'o, 's, 'p) engine)" where
  "py_next s a =
     (case iters s a of
        None \<Rightarrow> Inl (LibraryError 0)
      | Some [] \<Rightarrow> Inl StopIteration
      | Some (Inl e # rest) \<Rightarrow> Inl e
      | Some (Inr b # rest) \<Rightarrow> Inr (b, s\<lparr>iters := (iters s)(a \<mapsto> rest)\<rparr>))"

subsection \<open>Validation\<close>

text \<open>
  The \<open>try\<close> of \<open>validate\<close>: \<open>next(val_iter)\<close>; on StopIteration the local name
  \<open>val_iter\<close> is deleted and bound to a new iterator over the validation loader, and the
  batch is fetched from that one, outside any \<open>try\<close>. The result carries the address the
  local name is bound to afterwards.
\<close>

definition fetch_val_batch ::
  "('w, 'o, 's, 'p) engine \<Rightarrow> nat \<Rightarrow> error + ('p batch \<times> nat \<times> ('w, 'o, 's, 'p) engine)" where
  "fetch_val_batch s val_iter =
     (case py_next s val_iter of
        Inr (val_data, s1) \<Rightarrow> Inr (val_data, val_iter, s1)
      | Inl e \<Rightarrow>
         if e = StopIteration then
           (let s1 = emit (Print ''Fetching new validation iterator...'') s
            in thenE (py_iter s1 ''validation'') (\<lambda>(val_iter', s2).
                 thenE (py_next s2 val_iter') (\<lambda>(val_data, s3).
                   Inr (val_data, val_iter', s3))))
         else Inl e)"

text \<open>
  The loop \<open>for val_batch in range(num_val_batches)\<close>, by the number of rounds left; it
  carries the local name \<open>val_iter\<close> and the two running sums.
\<close>

fun validate_batches ::
  "('w, 'o, 's, 'p) torch \<Rightarrow> nat \<Rightarrow> ('w, 'o, 's, 'p) engine \<Rightarrow> nat \<Rightarrow> real \<Rightarrow> real \<Rightarrow>
     error + (real \<times> real \<times> ('w, 'o, 's, 'p) engine)" where
  "validate_batches lib 0 s val_iter l a = Inr (l, a, s)"
| "validate_batches lib (Suc n) s val_iter l a =
     thenE (fetch_val_batch s val_iter) (\<lambda>(val_data, val_iter', s1).
       thenE (forward lib (s1\<lparr>data := Some (b_data val_data), labels := Some (b_labels val_data)\<rparr>) False)
         (\<lambda>(val_res, s2).
            validate_batches lib n s2 val_iter' (l + r_loss val_res) (a + r_accuracy val_res)))"

text \<open>\<open>np.mean\<close> of a one-dimensional array.\<close>

definition np_mean :: "real list \<Rightarrow> real" where
  "np_mean xs = sum_list xs / real (length xs)"

text \<open>
  \<open>get_synchronized_metrics\<close> on the two validation metrics: one \<open>all_gather\<close> for
  each, in the order of the dict.
\<close>

definition sync_val_metrics ::
  "('w, 'o, 's, 'p) torch \<Rightarrow> real \<Rightarrow> real \<Rightarrow> error + (real list \<times> real list)" where
  "sync_val_metrics lib l a =
     thenE (all_gather lib l) (\<lambda>gl. thenE (all_gather lib a) (\<lambda>ga. Inr (gl, ga)))"

text \<open>
  The part of \<open>validate\<close> under \<open>if self.rank == 0\<close>: the best-model save, the
  latest-model save and the row of the validation log.
\<close>

definition validate_rank0 ::
  "('w, 'o, 's, 'p) engine \<Rightarrow> int \<Rightarrow> real \<Rightarrow> real \<Rightarrow> bool \<Rightarrow> error + ('w, 'o, 's, 'p) engine" where
  "validate_rank0 s it global_val_loss global_val_accuracy checkpointing =
     thenE
       (if global_val_loss < best_validation_loss s then
          thenE (save_state (emit (Print ''best validation loss so far!'')
                               (s\<lparr>best_validation_loss := global_val_loss\<rparr>)) ''BEST'')
            (\<lambda>(filename, s1). Inr (1, s1))
        else Inr (0, s))
       (\<lambda>(saved_best, s2).
          thenE (if checkpointing then thenE (save_state s2 []) (\<lambda>(filename, s3). Inr s3)
                 else Inr s2)
            (\<lambda>s4. Inr (s4\<lparr>val_log := val_log s4 @
                          [\<lparr>v_iteration = it, v_epoch = epoch s4, v_loss = global_val_loss,
                            v_accuracy = global_val_accuracy, v_saved_best = saved_best\<rparr>]\<rparr>)))"

text \<open>
  The local part of \<open>validate\<close>: eval mode, the metrics dict (it reads
  \<open>self.iteration\<close>), the batches, training mode again, and the two divisions by
  \<open>num_val_batches\<close> (a float divided by the integer zero raises).
\<close>

definition validate_local ::
  "('w, 'o, 's, 'p) torch \<Rightarrow> ('w, 'o, 's, 'p) engine \<Rightarrow> nat \<Rightarrow> int \<Rightarrow>
     error + (int \<times> real \<times> real \<times> ('w, 'o, 's, 'p) engine)" where
  "validate_local lib s val_iter num_val_batches =
     (let s0 = emit ModelEval (s\<lparr>training := False\<rparr>) in
      case iteration s0 of
        None \<Rightarrow> Inl AttributeError
      | Some it \<Rightarrow>
         thenE (validate_batches lib (nat num_val_batches) s0 val_iter 0 0) (\<lambda>(l, a, s1).
           let s2 = emit ModelTrain (s1\<lparr>training := True\<rparr>) in
           if num_val_batches = 0 then Inl ZeroDivisionError
           else Inr (it, l / of_int num_val_batches, a / of_int num_val_batches, s2)))"

definition validate ::
  "('w, 'o, 's, 'p) torch \<Rightarrow> ('w, 'o, 's, 'p) engine \<Rightarrow> nat \<Rightarrow> int \<Rightarrow> bool \<Rightarrow>
     error + ('w, 'o, 's, 'p) engine" where
  "validate lib s val_iter num_val_batches checkpointing =
     thenE (validate_local lib s val_iter num_val_batches) (\<lambda>(it, local_loss, local_acc, s1).
       thenE (if is_distributed s1 then sync_val_metrics lib local_loss local_acc
              else Inr ([local_loss], [local_acc]))
         (\<lambda>(global_loss, global_acc).
            if rank s1 = 0 then
              validate_rank0 s1 it (np_mean global_loss) (np_mean global_acc) checkpointing
            else Inr s1))"

subsection \<open>Training\<close>

text \<open>The options of \<open>train_config\<close>; \<open>save_interval\<close> may be absent.\<close>

record train_config =
  epochs :: int
  report_interval :: int
  val_interval :: int
  num_val_batches :: int
  checkpointing :: bool
  save_interval :: "int option"

text \<open>\<open>str\<close> of an integer, for the f-string of the periodic save.\<close>

fun str_nat :: "nat \<Rightarrow> string" where
  "str_nat n =
     (if n < 10 then [char_of (48 + n)] else str_nat (n div 10) @ [char_of (48 + n mod 10)])"

definition str_int :: "int \<Rightarrow> string" where
  "str_int i = (if i < 0 then CHR ''-'' # str_nat (nat (- i)) else str_nat (nat i))"

text \<open>
  The training on one batch: forward, backward, the counters, the row of the training log,
  and on rank 0 the report on its interval (the modulo raises for an interval of zero).
\<close>

definition train_on_batch ::
  "('w, 'o, 's, 'p) torch \<Rightarrow> train_config \<Rightarrow> ('w, 'o, 's, 'p) engine \<Rightarrow> 'p batch \<Rightarrow>
     error + ('w, 'o, 's, 'p) engine" where
  "train_on_batch lib cfg s train_data =
     thenE (forward lib (s\<lparr>data := Some (b_data train_data),
                            labels := Some (b_labels train_data)\<rparr>) True)
       (\<lambda>(res, s1). thenE (backward lib s1)
          (\<lambda>s2. case iteration s2 of
                   None \<Rightarrow> Inl AttributeError
                 | Some it \<Rightarrow>
                    (let s3 = s2\<lparr>step := step s2 + 1, iteration := Some (it + 1)\<rparr>;
                         s4 = s3\<lparr>train_log := train_log s3 @
                                 [\<lparr>t_iteration = it + 1, t_epoch = epoch s3,
                                   t_loss = r_loss res, t_accuracy = r_accuracy res\<rparr>]\<rparr>
                     in if rank s4 = 0 then
                          (if report_interval cfg = 0 then Inl ZeroDivisionError
                           else if (it + 1) mod report_interval cfg = 0
                                then Inr (emit (Print ''... Iteration ...'') s4)
                                else Inr s4)
                        else Inr s4)))"

text \<open>
  The body of the loop over the batches of one epoch: the validation on its interval (the
  modulo raises for an interval of zero), then the training on the batch.
\<close>

definition train_batch ::
  "('w, 'o, 's, 'p) torch \<Rightarrow> train_config \<Rightarrow> nat \<Rightarrow> ('w, 'o, 's, 'p) engine \<Rightarrow> int \<Rightarrow> 'p batch \<Rightarrow>
     error + ('w, 'o, 's, 'p) engine" where
  "train_batch lib cfg val_iter s i train_data =
     (let s0 = s\<lparr>step := i\<rparr> in
      case iteration s0 of
        None \<Rightarrow> Inl AttributeError
      | Some it \<Rightarrow>
         if val_interval cfg = 0 then Inl ZeroDivisionError
         else
           thenE (if it mod val_interval cfg = 0
                  then validate lib s0 val_iter (num_val_batches cfg) (checkpointing cfg)
                  else Inr s0)
             (\<lambda>s1. train_on_batch lib cfg s1 train_data))"

text \<open>
  \<open>for self.step, train_data in enumerate(train_loader)\<close>: an item that raises ends the
  run, except StopIteration, which ends the loop as the iterator protocol says.
\<close>

fun train_batches ::
  "('w, 'o, 's, 'p) torch \<Rightarrow> train_config \<Rightarrow> nat \<Rightarrow> ('w, 'o, 's, 'p) engine \<Rightarrow> int \<Rightarrow>
     (error + 'p batch) list \<Rightarrow> error + ('w, 'o, 's, 'p) engine" where
  "train_batches lib cfg val_iter s i [] = Inr s"
| "train_batches lib cfg val_iter s i (Inl e # rest) =
     (if e = StopIteration then Inr s else Inl e)"
| "train_batches lib cfg val_iter s i (Inr train_data # rest) =
     thenE (train_batch lib cfg val_iter s i train_data)
       (\<lambda>s'. train_batches lib cfg val_iter s' (i + 1) rest)"

text \<open>
  The end of an epoch: the scheduler step if there is a scheduler, and the periodic save
  when \<open>save_interval\<close> is given and divides the epoch number plus one.
\<close>

definition epoch_end ::
  "('w, 'o, 's, 'p) torch \<Rightarrow> train_config \<Rightarrow> ('w, 'o, 's, 'p) engine \<Rightarrow>
     error + ('w, 'o, 's, 'p) engine" where
  "epoch_end lib cfg s =
     thenE (case scheduler s of
              None \<Rightarrow> Inr s
            | Some sch \<Rightarrow>
               (case sched_step lib sch (optimizer s) of
                  Inl e \<Rightarrow> Inl e
                | Inr (sch', opt') \<Rightarrow>
                   Inr (emit SchedulerStep (s\<lparr>scheduler := Some sch', optimizer := opt'\<rparr>))))
       (\<lambda>s1. case save_interval cfg of
                None \<Rightarrow> Inr s1
              | Some k \<Rightarrow>
                 if k = 0 then Inl ZeroDivisionError
                 else if (epoch s1 + 1) mod k = 0 then
                   thenE (save_state s1 (''_epoch_'' @ str_int (epoch s1 + 1)))
                     (\<lambda>(filename, s2). Inr s2)
                 else Inr s1)"

text \<open>The body of \<open>for self.epoch in range(epochs)\<close>.\<close>

definition train_epoch ::
  "('w, 'o, 's, 'p) torch \<Rightarrow> train_config \<Rightarrow> nat \<Rightarrow> ('w, 'o, 's, 'p) engine \<Rightarrow> int \<Rightarrow>
     error + ('w, 'o, 's, 'p) engine" where
  "train_epoch lib cfg val_iter s ep =
     (let s0 = s\<lparr>epoch := ep\<rparr>;
          s1 = (if rank s0 = 0 then emit (Print (''Epoch '' @ str_int (ep + 1) @ '' Starting'')) s0
                else s0)
      in case data_loaders s1 ''train'' of
           None \<Rightarrow> Inl KeyError
         | Some train_loader \<Rightarrow>
            (let s2 = s1\<lparr>step := 0\<rparr>;
                 s3 = (if is_distributed s2 then emit (SetEpoch ep) s2 else s2)
             in thenE (train_batches lib cfg val_iter s3 0 train_loader) (epoch_end lib cfg)))"

fun train_epochs ::
  "('w, 'o, 's, 'p) torch \<Rightarrow> train_config \<Rightarrow> nat \<Rightarrow> ('w, 'o, 's, 'p) engine \<Rightarrow> int list \<Rightarrow>
     error + ('w, 'o, 's, 'p) engine" where
  "train_epochs lib cfg val_iter s [] = Inr s"
| "train_epochs lib cfg val_iter s (ep # eps) =
     thenE (train_epoch lib cfg val_iter s ep) (\<lambda>s'. train_epochs lib cfg val_iter s' eps)"

text \<open>
  The start of \<open>train\<close>: training mode, the counters, the best validation loss
  \<open>1.0e10\<close>, and the one iterator over the validation loader, bound to the local name
  \<open>val_iter\<close> of \<open>train\<close>.
\<close>

definition train_start ::
  "('w, 'o, 's, 'p) engine \<Rightarrow> error + (nat \<times> ('w, 'o, 's, 'p) engine)" where
  "train_start s =
     (let s0 = (if rank s = 0 then emit (Print ''Training... Validation Interval'') s else s);
          s1 = emit ModelTrain (s0\<lparr>training := True\<rparr>);
          s2 = s1\<lparr>epoch := 0, iteration := Some 0, step := 0, best_validation_loss := 10 ^ 10\<rparr>
      in py_iter s2 ''validation'')"

definition train ::
  "('w, 'o, 's, 'p) torch \<Rightarrow> ('w, 'o, 's, 'p) engine \<Rightarrow> train_config \<Rightarrow>
     error + ('w, 'o, 's, 'p) engine" where
  "train lib s cfg =
     thenE (train_start s) (\<lambda>(val_iter, s1).
       train_epochs lib cfg val_iter s1 (map int [0..<nat (epochs cfg)]))"

subsection \<open>Attribution\<close>

text \<open>
  \<open>torch.eye(4)[[i]]\<close> is the one-row tensor with the \<open>i\<close>-th unit vector;
  \<open>torch.tile(initial_target, (data.shape[0], 1))\<close> repeats that row once for each input of
  the batch. \<open>attribution.sum(0)\<close> adds the slices of axis 0, the batch axis, element by
  element (for a batch of at least one input).
\<close>

definition eye4_row :: "nat \<Rightarrow> real list" where
  "eye4_row i = map (\<lambda>j. if j = i then 1 else 0) [0..<4]"

definition sum0 :: "('p::plus) list list \<Rightarrow> 'p list" where
  "sum0 t = (case t of [] \<Rightarrow> [] | x # xs \<Rightarrow> foldl (\<lambda>acc row. map2 (+) acc row) x xs)"

text \<open>
  The loop \<open>for i in range(4)\<close> of \<open>epsilonAlpha2Beta1\<close>, with the two lists it
  extends: the rows of the model output, and the slices along axis 0 of the relevance.
\<close>

fun epsilonAlpha2Beta1_loop ::
  "('w, 'o, 's, 'p::plus) torch \<Rightarrow> nat list \<Rightarrow> ('w, 'o, 's, 'p) engine \<Rightarrow> 'p list list \<Rightarrow>
     real list list \<Rightarrow> 'p list \<Rightarrow> error + (real list list \<times> 'p list \<times> ('w, 'o, 's, 'p) engine)" where
  "epsilonAlpha2Beta1_loop lib [] s d total_output total_relevance =
     Inr (total_output, total_relevance, s)"
| "epsilonAlpha2Beta1_loop lib (i # is) s d total_output total_relevance =
     (let initial_target = [eye4_row i];
          target = concat (replicate (length d) initial_target)
      in case attributor lib EpsilonAlpha2Beta1 (weights s) d target of
           Inl e \<Rightarrow> Inl e
         | Inr (output, attribution) \<Rightarrow>
            (let s1 = emit (Print ''data.shape'') (emit (GradientCall target) s);
                 relevance = sum0 attribution
             in epsilonAlpha2Beta1_loop lib is s1 d (total_output @ output)
                  (total_relevance @ relevance)))"

definition epsilonAlpha2Beta1 ::
  "('w, 'o, 's, 'p::plus) torch \<Rightarrow> ('w, 'o, 's, 'p) engine \<Rightarrow> 'p list list \<Rightarrow>
     error + (real list list \<times> 'p list \<times> ('w, 'o, 's, 'p) engine)" where
  "epsilonAlpha2Beta1 lib s d = epsilonAlpha2Beta1_loop lib [0..<4] s d [] []"

text \<open>\<open>epsilonPlusFlat\<close>: the same loop with the other composite and the untiled target.\<close>

fun epsilonPlusFlat_loop ::
  "('w, 'o, 's, 'p::plus) torch \<Rightarrow> nat list \<Rightarrow> ('w, 'o, 's, 'p) engine \<Rightarrow> 'p list list \<Rightarrow>
     real list list \<Rightarrow> 'p list \<Rightarrow> error + (real list list \<times> 'p list \<times> ('w, 'o, 's, 'p) engine)" where
  "epsilonPlusFlat_loop lib [] s d total_output total_relevance =
     Inr (total_output, total_relevance, s)"
| "epsilonPlusFlat_loop lib (i # is) s d total_output total_relevance =
     (let target = [eye4_row i]
      in case attributor lib EpsilonPlusFlat (weights s) d target of
           Inl e \<Rightarrow> Inl e
         | Inr (output, attribution) \<Rightarrow>
            (let s1 = emit (GradientCall target) s;
                 relevance = sum0 attribution
             in epsilonPlusFlat_loop lib is s1 d (total_output @ output)
                  (total_relevance @ relevance)))"

definition epsilonPlusFlat ::
  "('w, 'o, 's, 'p::plus) torch \<Rightarrow> ('w, 'o, 's, 'p) engine \<Rightarrow> 'p list list \<Rightarrow>
     error + (real list list \<times> 'p list \<times> ('w, 'o, 's, 'p) engine)" where
  "epsilonPlusFlat lib s d = epsilonPlusFlat_loop lib [0..<4] s d [] []"

subsection \<open>Evaluation\<close>

text \<open>
  The name \<open>lrp_output\<close> of \<open>evaluate\<close> is bound to a Python list of lists of rows at
  first, and to the array \<open>epsilonAlpha2Beta1\<close> returns after the assignment in the
  class loop. A Python list has the method \<open>extend\<close>; a numpy array, and a row of one,
  has no such attribute.
\<close>

datatype lrp_value = PyList "real list list list" | NdArray "real list list"

definition extend_empty :: "lrp_value \<Rightarrow> error + lrp_value" where
  "extend_empty v = (case v of PyList xs \<Rightarrow> Inr (PyList (xs @ [[]])) | NdArray rows \<Rightarrow> Inl AttributeError)"

text \<open>\<open>v[k].extend(rows)\<close>: the index first, then the attribute lookup.\<close>

definition item_extend :: "lrp_value \<Rightarrow> nat \<Rightarrow> real list list \<Rightarrow> error + lrp_value" where
  "item_extend v k rows =
     (case v of
        PyList xs \<Rightarrow> if k < length xs then Inr (PyList (xs[k := xs ! k @ rows])) else Inl IndexError
      | NdArray arr \<Rightarrow> if k < length arr then Inl AttributeError else Inl IndexError)"

definition relevance_extend :: "'p list list \<Rightarrow> nat \<Rightarrow> 'p list \<Rightarrow> error + 'p list list" where
  "relevance_extend xs k slices =
     (if k < length xs then Inr (xs[k := xs ! k @ slices]) else Inl IndexError)"

text \<open>The local variables of \<open>evaluate\<close> that its loop over the test set updates.\<close>

record 'p eval_vars =
  e_loss :: real
  e_acc :: real
  e_iterations :: nat
  e_indices :: "int list"
  e_labels :: "int list"
  e_predictions :: "int list"
  e_softmaxes :: "real list list"
  e_lrp_output :: lrp_value
  e_relevance :: "'p list list"

text \<open>
  The loop \<open>for i in range(4)\<close> of \<open>evaluate\<close>: each round calls
  \<open>epsilonAlpha2Beta1\<close> on the whole batch, binds \<open>lrp_output\<close> to the returned array,
  and extends item \<open>eval_iterations\<close> of \<open>lrp_output\<close> by \<open>lrp_output\<close> itself.
\<close>

fun lrp_loop ::
  "('w, 'o, 's, 'p::plus) torch \<Rightarrow> nat list \<Rightarrow> ('w, 'o, 's, 'p) engine \<Rightarrow> 'p list list \<Rightarrow> nat \<Rightarrow>
     lrp_value \<Rightarrow> 'p list list \<Rightarrow> error + (lrp_value \<times> 'p list list \<times> ('w, 'o, 's, 'p) engine)" where
  "lrp_loop lib [] s d k lrp_output relevance = Inr (lrp_output, relevance, s)"
| "lrp_loop lib (i # is) s d k lrp_output relevance =
     thenE (epsilonAlpha2Beta1 lib s d) (\<lambda>(out, attribution, s1).
       thenE (item_extend (NdArray out) k out) (\<lambda>lrp_output'.
         thenE (relevance_extend relevance k attribution) (\<lambda>relevance'.
           lrp_loop lib is s1 d k lrp_output' relevance')))"

definition evaluate_batch ::
  "('w, 'o, 's, 'p::plus) torch \<Rightarrow> ('w, 'o, 's, 'p) engine \<Rightarrow> 'p eval_vars \<Rightarrow> 'p batch \<Rightarrow>
     error + ('p eval_vars \<times> ('w, 'o, 's, 'p) engine)" where
  "evaluate_batch lib s vars eval_data =
     thenE (forward lib (s\<lparr>data := Some (b_data eval_data), labels := Some (b_labels eval_data)\<rparr>) False)
       (\<lambda>(result, s1).
          thenE (extend_empty (e_lrp_output vars)) (\<lambda>lrp_output.
            thenE (lrp_loop lib [0..<4] s1 (b_data eval_data) (e_iterations vars) lrp_output
                     (e_relevance vars @ [[]]))
              (\<lambda>(lrp_output', relevance', s2).
                 Inr (vars\<lparr>e_loss := e_loss vars + r_loss result,
                           e_acc := e_acc vars + r_accuracy result,
                           e_iterations := e_iterations vars + 1,
                           e_indices := e_indices vars @ b_indices eval_data,
                           e_labels := e_labels vars @ b_labels eval_data,
                           e_predictions := e_predictions vars @ r_predicted_labels result,
                           e_softmaxes := e_softmaxes vars @ r_softmax result,
                           e_lrp_output := lrp_output',
                           e_relevance := relevance'\<rparr>,
                      emit (Print ''eval_iteration ...'') s2))))"

fun evaluate_batches ::
  "('w, 'o, 's, 'p::plus) torch \<Rightarrow> ('w, 'o, 's, 'p) engine \<Rightarrow> 'p eval_vars \<Rightarrow>
     (error + 'p batch) list \<Rightarrow> error + ('p eval_vars \<times> ('w, 'o, 's, 'p) engine)" where
  "evaluate_batches lib s vars [] = Inr (vars, s)"
| "evaluate_batches lib s vars (Inl e # rest) =
     (if e = StopIteration then Inr (vars, s) else Inl e)"
| "evaluate_batches lib s vars (Inr eval_data # rest) =
     thenE (evaluate_batch lib s vars eval_data) (\<lambda>(vars', s'). evaluate_batches lib s' vars' rest)"

text \<open>
  After the loop: the averages are printed (a float divided by the integer zero raises),
  the lists become arrays, a distributed run gathers the three metrics and the six arrays,
  and rank 0 saves the six arrays.
\<close>

definition np_array_lrp :: "lrp_value \<Rightarrow> 'p npy" where
  "np_array_lrp v = (case v of PyList xs \<Rightarrow> NestedRowArray xs | NdArray rows \<Rightarrow> RowArray rows)"

definition np_save ::
  "string \<times> 'p npy \<Rightarrow> ('w, 'o, 's, 'p) engine \<Rightarrow> ('w, 'o, 's, 'p) engine" where
  "np_save fa s =
     emit (NpSave (dirpath s @ fst fa)) (s\<lparr>npy_files := (npy_files s)(dirpath s @ fst fa \<mapsto> snd fa)\<rparr>)"

fun gather_arrays ::
  "('w, 'o, 's, 'p) torch \<Rightarrow> (string \<times> 'p npy) list \<Rightarrow> error + (string \<times> 'p npy) list" where
  "gather_arrays lib [] = Inr []"
| "gather_arrays lib ((name, arr) # rest) =
     thenE (all_gather_array lib arr) (\<lambda>g.
       thenE (gather_arrays lib rest) (\<lambda>gs. Inr ((name, g) # gs)))"

definition evaluate_finish ::
  "('w, 'o, 's, 'p) torch \<Rightarrow> ('w, 'o, 's, 'p) engine \<Rightarrow> 'p eval_vars \<Rightarrow>
     error + ('w, 'o, 's, 'p) engine" where
  "evaluate_finish lib s vars =
     (if e_iterations vars = 0 then Inl ZeroDivisionError
      else
        (let s1 = emit (Print ''loss : ... accuracy : ...'') s;
             arrays = [(''indices.npy'', IntArray (e_indices vars)),
                       (''labels.npy'', IntArray (e_labels vars)),
                       (''predictions.npy'', IntArray (e_predictions vars)),
                       (''softmax.npy'', RowArray (e_softmaxes vars)),
                       (''lrp_output.npy'', np_array_lrp (e_lrp_output vars)),
                       (''relevance.npy'', SliceArray (e_relevance vars))]
         in thenE (if is_distributed s1 then
                     thenE (all_gather lib (real (e_iterations vars))) (\<lambda>gi.
                       thenE (all_gather lib (e_loss vars)) (\<lambda>gl.
                         thenE (all_gather lib (e_acc vars)) (\<lambda>ga. gather_arrays lib arrays)))
                   else Inr arrays)
              (\<lambda>arrays'.
                 if rank s1 = 0 then
                   Inr (emit (Print ''Avg eval loss : ... Avg eval acc : ...'')
                          (fold np_save arrays' (emit (Print ''Saving Data...'') s1)))
                 else Inr s1)))"

definition eval_vars_init :: "'p eval_vars" where
  "eval_vars_init =
     \<lparr>e_loss = 0, e_acc = 0, e_iterations = 0, e_indices = [], e_labels = [],
      e_predictions = [], e_softmaxes = [], e_lrp_output = PyList [], e_relevance = []\<rparr>"

definition evaluate ::
  "('w, 'o, 's, 'p::plus) torch \<Rightarrow> ('w, 'o, 's, 'p) engine \<Rightarrow> error + ('w, 'o, 's, 'p) engine" where
  "evaluate lib s =
     (let s0 = emit (Print (''evaluating in directory:  '' @ dirpath s)) s;
          s1 = emit ModelEval (s0\<lparr>training := False\<rparr>)
      in case data_loaders s1 ''test'' of
           None \<Rightarrow> Inl KeyError
         | Some test_loader \<Rightarrow>
            thenE (evaluate_batches lib s1 eval_vars_init test_loader)
              (\<lambda>(vars, s2). evaluate_finish lib s2 vars))"

section \<open>Observations on traces and logs\<close>

text \<open>The filenames of the checkpoint saves in a trace, in order.\<close>

fun saves_in :: "event list \<Rightarrow> string list" where
  "saves_in [] = []"
| "saves_in (TorchSave f # evs) = f # saves_in evs"
| "saves_in (ev # evs) = saves_in evs"

text \<open>The targets of the calls of the attribution library in a trace, in order.\<close>

fun gradient_targets :: "event list \<Rightarrow> real list list list" where
  "gradient_targets [] = []"
| "gradient_targets (GradientCall t # evs) = t # gradient_targets evs"
| "gradient_targets (ev # evs) = gradient_targets evs"

text \<open>The loss and accuracy of the forward calls made without training, in order.\<close>

fun val_forwards :: "event list \<Rightarrow> (real \<times> real) list" where
  "val_forwards [] = []"
| "val_forwards (ForwardCall False l a # evs) = (l, a) # val_forwards evs"
| "val_forwards (ev # evs) = val_forwards evs"

text \<open>The events a run adds to the trace it started with.\<close>

definition new_events ::
  "('w, 'o, 's, 'p) engine \<Rightarrow> ('w, 'o, 's, 'p) engine \<Rightarrow> event list" where
  "new_events s s' = drop (length (trace s)) (trace s')"

text \<open>
  The bookkeeping of the best validation loss, in the words of the specification: the
  running minimum of a start value and the losses of the rows, and rows whose
  \<open>saved_best\<close> flag is 1 exactly where the loss is strictly below the running minimum
  before the row.
\<close>

definition running_min :: "real \<Rightarrow> val_row list \<Rightarrow> real" where
  "running_min b rows = fold (\<lambda>r m. min m (v_loss r)) rows b"

fun tracks_minimum :: "real \<Rightarrow> val_row list \<Rightarrow> bool" where
  "tracks_minimum b [] = True"
| "tracks_minimum b (r # rs) =
     (v_saved_best r = (if v_loss r < b then 1 else 0) \<and> tracks_minimum (min b (v_loss r)) rs)"

text \<open>
  The best loss of a state tracks the minimum over the rows its validation log has gained
  after the rows \<open>pre\<close>, from the start value \<open>b\<close>.
\<close>

definition best_tracked ::
  "real \<Rightarrow> val_row list \<Rightarrow> ('w, 'o, 's, 'p) engine \<Rightarrow> bool" where
  "best_tracked b pre s =
     (take (length pre) (val_log s) = pre \<and>
      tracks_minimum b (drop (length pre) (val_log s)) \<and>
      best_validation_loss s = running_min b (drop (length pre) (val_log s)))"

text \<open>
  In a trace, every switch of the model to evaluation mode (the first action of
  \<open>validate\<close>) is followed at once by the message of the recovery branch.
\<close>

fun evals_recover :: "event list \<Rightarrow> bool" where
  "evals_recover [] = True"
| "evals_recover (ModelEval # evs) =
     (take 1 evs = [Print ''Fetching new validation iterator...''] \<and> evals_recover evs)"
| "evals_recover (ev # evs) = evals_recover evs"

definition recovering :: "event list \<Rightarrow> bool" where
  "recovering evs = (evals_recover evs \<and> (evs = [] \<or> last evs \<noteq> ModelEval))"

text \<open>
  An iterator object that exists and has nothing left: the next \<open>next\<close> on it raises
  StopIteration.
\<close>

definition exhausted :: "('w, 'o, 's, 'p) engine \<Rightarrow> nat \<Rightarrow> bool" where
  "exhausted s a = (iters s a = Some [] \<and> a < next_iter s)"

text \<open>
  What a run leaves alone: the configuration of the engine, the bookkeeping of the
  validation (its log and the best loss), and what a validation pass before its rank 0
  part leaves alone.
\<close>

definition same_setup ::
  "('w, 'o, 's, 'p) engine \<Rightarrow> ('w, 'o, 's, 'p) engine \<Rightarrow> bool" where
  "same_setup s s' =
     (dirpath s' = dirpath s \<and> rank s' = rank s \<and> is_distributed s' = is_distributed s \<and>
      model_name s' = model_name s \<and> data_loaders s' = data_loaders s)"

definition same_books ::
  "('w, 'o, 's, 'p) engine \<Rightarrow> ('w, 'o, 's, 'p) engine \<Rightarrow> bool" where
  "same_books s s' =
     (val_log s' = val_log s \<and> best_validation_loss s' = best_validation_loss s)"

definition validation_frame ::
  "('w, 'o, 's, 'p) engine \<Rightarrow> ('w, 'o, 's, 'p) engine \<Rightarrow> bool" where
  "validation_frame s s' =
     (same_setup s s' \<and> same_books s s' \<and> iteration s' = iteration s \<and> epoch s' = epoch s \<and>
      optimizer s' = optimizer s \<and> files s' = files s)"

section \<open>A small framework and engine for concrete runs\<close>

text \<open>
  Weights and optimizer state are counters that every backward pass increments; the loss
  of a forward pass is \<open>1 / (1 + weights)\<close>; there is one process; the attribution
  library returns the target as model output and the data as attribution.
\<close>

definition toy_lib :: "(nat, nat, unit, real) torch" where
  "toy_lib =
     \<lparr>model_forward = (\<lambda>w tr d l. Inr (w, \<lparr>r_loss = 1 / (1 + real w), r_accuracy = 1 / 2,
                                                r_predicted_labels = l,
                                                r_softmax = map (\<lambda>x. [1, 0, 0, 0]) l\<rparr>)),
      optim_backward = (\<lambda>w opt g. Inr (w + 1, opt + 1)),
      sched_step = (\<lambda>sch opt. Inr (sch, opt)),
      all_gather = (\<lambda>x. Inr [x]),
      all_gather_array = Inr,
      load_weights_ok = (\<lambda>cur new. True),
      load_optim_ok = (\<lambda>cur new. True),
      attributor = (\<lambda>c w d t. Inr (t, d))\<rparr>"

text \<open>The same framework with a model whose loss is \<open>2.0e10\<close>.\<close>

definition diverged_lib :: "(nat, nat, unit, real) torch" where
  "diverged_lib =
     toy_lib\<lparr>model_forward := (\<lambda>w tr d l. Inr (w, \<lparr>r_loss = 2 * 10 ^ 10, r_accuracy = 0,
                                                        r_predicted_labels = l,
                                                        r_softmax = map (\<lambda>x. [1, 0, 0, 0]) l\<rparr>))\<rparr>"

text \<open>A batch of two inputs with one slice each, and an engine with three loaders.\<close>

definition ex_batch :: "real batch" where
  "ex_batch = \<lparr>b_data = [[1], [2]], b_labels = [0, 1], b_indices = [10, 11]\<rparr>"

definition ex_engine :: "(nat, nat, unit, real) engine" where
  "ex_engine =
     configure_data_loaders
       (configure_optimizers (engine_init 0 ''ResNet'' False 0 ''out/'') 0)
       [(''train'', [Inr ex_batch, Inr ex_batch]),
        (''validation'', [Inr ex_batch]),
        (''test'', [Inr ex_batch, Inr ex_batch])]"

definition ex_cfg :: train_config where
  "ex_cfg = \<lparr>epochs = 1, report_interval = 1, val_interval = 1, num_val_batches = 1,
             checkpointing = True, save_interval = Some 1\<rparr>"

text \<open>
  The engine during a training run with its validation iterator at address 0: once with
  nothing left in it, once with an item that raises when it is fetched. And a framework
  whose model call raises.
\<close>

definition ex_exhausted :: "(nat, nat, unit, real) engine" where
  "ex_exhausted = ex_engine\<lparr>iteration := Some 0, iters := [0 \<mapsto> []], next_iter := 1\<rparr>"



section \<open>Basic facts\<close>

lemma thenE_Inr_iff: "thenE r f = Inr y \<longleftrightarrow> (\<exists>x. r = Inr x \<and> f x = Inr y)"
  by (cases r) (simp_all add: thenE_def)

lemma thenE_Inl: "r = Inl e \<Longrightarrow> thenE r f = Inl e"
  by (simp add: thenE_def)

lemma thenE_Inr: "r = Inr x \<Longrightarrow> thenE r f = f x"
  by (simp add: thenE_def)

lemma new_events_append: "trace s' = trace s @ evs \<Longrightarrow> new_events s s' = evs"
  by (simp add: new_events_def)

lemma saves_in_append: "saves_in (xs @ ys) = saves_in xs @ saves_in ys"
  by (induction xs rule: saves_in.induct) simp_all

lemma save_state_Inr_iff:
  "save_state s name = Inr (fn, s1) \<longleftrightarrow>
     (\<exists>it opt. iteration s = Some it \<and> optimizer s = Some opt \<and> fn = save_filename s name \<and>
        s1 = s\<lparr>files := (files s)(fn \<mapsto> [''global_step'' \<mapsto> GlobalStep it,
                                             ''optimizer'' \<mapsto> OptimizerState opt,
                                             ''state_dict'' \<mapsto> StateDict (weights s)]),
               trace := trace s @ [TorchSave fn, Print (''Saved checkpoint as: '' @ fn)]\<rparr>)"
  by (auto simp: save_state_def Let_def emit_def split: option.splits)

lemma not_isl_projr: "\<not> isl r \<Longrightarrow> r = Inr (projr r)"
  by (cases r) simp_all

lemma isl_projl: "isl r \<Longrightarrow> r = Inl (projl r)"
  by (cases r) simp_all

lemma Inl_by_parts: "isl r \<Longrightarrow> projl r = e \<Longrightarrow> r = Inl e"
  by (cases r) simp_all

lemma thenE_assoc: "thenE (thenE m f) g = thenE m (\<lambda>x. thenE (f x) g)"
  by (cases m) (simp_all add: thenE_def)

section \<open>Checkpoint round trip\<close>

text \<open>
  C1. If \<open>save_state\<close> returns a filename and the file is still what it wrote when
  \<open>restore_state_from_file\<close> is called on that filename (on any later state of an
  engine), then a restore that returns has the weights and the iteration count of the
  time of the save, and the optimizer state of that time whenever the restoring engine has
  an optimizer. The restore does return when the framework's \<open>load_state_dict\<close> checks
  accept the saved state dicts.
\<close>

theorem checkpoint_round_trip:
  assumes sv: "save_state s name = Inr (fn, s1)"
      and intact: "files s2 fn = files s1 fn"
  shows "(load_weights_ok lib (weights s2) (weights s) \<and>
          (\<forall>cur opt. optimizer s2 = Some cur \<and> optimizer s = Some opt \<longrightarrow> load_optim_ok lib cur opt)
            \<longrightarrow> (\<exists>s3. restore_state_from_file lib s2 fn = Inr s3)) \<and>
         (\<forall>s3. restore_state_from_file lib s2 fn = Inr s3 \<longrightarrow>
            weights s3 = weights s \<and> iteration s3 = iteration s \<and>
            (optimizer s2 \<noteq> None \<longrightarrow> optimizer s3 = optimizer s))"
proof -
  from sv obtain it opt where
    h: "iteration s = Some it" "optimizer s = Some opt"
       "files s1 fn = Some [''global_step'' \<mapsto> GlobalStep it, ''optimizer'' \<mapsto> OptimizerState opt,
                            ''state_dict'' \<mapsto> StateDict (weights s)]"
    by (auto simp: save_state_Inr_iff)
  show ?thesis
    using h intact
    by (auto simp: restore_state_from_file_def thenE_def emit_def Let_def split: option.splits if_splits)
qed

theorem checkpoint_round_trip_witness:
  "\<exists>fn s1 s3. save_state (ex_engine\<lparr>iteration := Some 3, weights := 5, optimizer := Some 7\<rparr>) ''BEST'' = Inr (fn, s1) \<and>
     restore_state_from_file toy_lib (s1\<lparr>iteration := Some 40, weights := 9, optimizer := Some 8\<rparr>) fn = Inr s3 \<and>
     weights s3 = 5 \<and> iteration s3 = Some 3 \<and> optimizer s3 = Some 7"
proof -
  let ?s = "ex_engine\<lparr>iteration := Some 3, weights := 5, optimizer := Some 7\<rparr>"
  obtain fn s1 where sv: "save_state ?s ''BEST'' = Inr (fn, s1)"
    by (simp add: save_state_def Let_def)
  let ?s2 = "s1\<lparr>iteration := Some 40, weights := 9, optimizer := Some 8\<rparr>"
  have intact: "files ?s2 fn = files s1 fn" by simp
  have ok: "load_weights_ok toy_lib (weights ?s2) (weights ?s) \<and>
         (\<forall>cur opt. optimizer ?s2 = Some cur \<and> optimizer ?s = Some opt \<longrightarrow> load_optim_ok toy_lib cur opt)"
    by (simp add: toy_lib_def)
  from checkpoint_round_trip[OF sv intact, of toy_lib] ok
  obtain s3 where r: "restore_state_from_file toy_lib ?s2 fn = Inr s3" by blast
  with checkpoint_round_trip[OF sv intact, of toy_lib]
  have "weights s3 = 5 \<and> iteration s3 = Some 3 \<and> optimizer s3 = Some 7" by simp
  with sv r show ?thesis by blast
qed

section \<open>What the steps do to the state\<close>

lemma forward_effect:
  assumes "forward lib s flag = Inr (res, s1)"
  shows "\<exists>w' g. s1 = s\<lparr>weights := w', loss := Some g,
                        trace := trace s @ [ForwardCall flag (r_loss res) (r_accuracy res)]\<rparr>"
  using assms
  by (auto simp: forward_def emit_def split: option.splits sum.splits)

lemma backward_effect:
  assumes "backward lib s = Inr s1"
  shows "\<exists>w' opt'. s1 = s\<lparr>weights := w', optimizer := Some opt', trace := trace s @ [BackwardCall]\<rparr>"
  using assms
  by (auto simp: backward_def emit_def split: option.splits sum.splits)

lemma py_next_effect:
  assumes "py_next s a = Inr (b, s1)"
  shows "\<exists>rest. iters s a = Some (Inr b # rest) \<and> s1 = s\<lparr>iters := (iters s)(a \<mapsto> rest)\<rparr>"
  using assms
  by (auto simp: py_next_def split: option.splits list.splits sum.splits)

lemma py_iter_effect:
  assumes "py_iter s name = Inr (a, s1)"
  shows "\<exists>items. data_loaders s name = Some items \<and> a = next_iter s \<and>
           s1 = s\<lparr>iters := (iters s)(a \<mapsto> items), next_iter := a + 1,
                  trace := trace s @ [NewIterator name a]\<rparr>"
  using assms
  by (auto simp: py_iter_def emit_def Let_def split: option.splits)

lemma py_next_StopIteration:
  "py_next s a = Inl StopIteration \<longleftrightarrow>
     (iters s a = Some [] \<or> (\<exists>rest. iters s a = Some (Inl StopIteration # rest)))"
  by (auto simp: py_next_def split: option.splits list.splits sum.splits)

lemma fetch_val_batch_cases:
  assumes "fetch_val_batch s v = Inr (b, v', s1)"
  shows "(\<exists>rest. iters s v = Some (Inr b # rest) \<and> v' = v \<and> s1 = s\<lparr>iters := (iters s)(v \<mapsto> rest)\<rparr>) \<or>
         (py_next s v = Inl StopIteration \<and> v' = next_iter s \<and>
          (\<exists>rest. data_loaders s ''validation'' = Some (Inr b # rest) \<and>
             s1 = s\<lparr>iters := (iters s)(next_iter s \<mapsto> rest), next_iter := next_iter s + 1,
                    trace := trace s @ [Print ''Fetching new validation iterator...'',
                                        NewIterator ''validation'' (next_iter s)]\<rparr>))"
proof (cases "py_next s v")
  case (Inr p)
  with assms have "py_next s v = Inr (b, s1)" "v' = v"
    by (cases p; simp add: fetch_val_batch_def)+
  with py_next_effect[of s v b s1] show ?thesis by blast
next
  case (Inl e)
  with assms have e: "e = StopIteration"
    by (auto simp: fetch_val_batch_def split: if_splits)
  with assms Inl obtain s2 s3 where
    1: "py_iter (emit (Print ''Fetching new validation iterator...'') s) ''validation'' = Inr (v', s2)"
    and 2: "py_next s2 v' = Inr (b, s3)" and 3: "s1 = s3"
    by (auto simp: fetch_val_batch_def Let_def thenE_Inr_iff)
  from py_iter_effect[OF 1] obtain items where
    i: "data_loaders s ''validation'' = Some items" "v' = next_iter s"
       "s2 = s\<lparr>iters := (iters s)(next_iter s \<mapsto> items), next_iter := next_iter s + 1,
                trace := trace s @ [Print ''Fetching new validation iterator...'',
                                        NewIterator ''validation'' (next_iter s)]\<rparr>"
    by (auto simp: emit_def)
  from py_next_effect[OF 2] obtain rest where
    n: "iters s2 v' = Some (Inr b # rest)" "s3 = s2\<lparr>iters := (iters s2)(v' \<mapsto> rest)\<rparr>"
    by blast
  from i n have "items = Inr b # rest" by simp
  moreover from i n 3 have "s1 = s\<lparr>iters := (iters s)(next_iter s \<mapsto> rest), next_iter := next_iter s + 1,
                    trace := trace s @ [Print ''Fetching new validation iterator...'',
                                        NewIterator ''validation'' (next_iter s)]\<rparr>"
    by simp
  ultimately show ?thesis using Inl e i by blast
qed

lemma val_forwards_append: "val_forwards (xs @ ys) = val_forwards xs @ val_forwards ys"
  by (induction xs rule: val_forwards.induct) simp_all

lemma exhausted_upd_other:
  "exhausted s a0 \<Longrightarrow> iters s v = Some (x # rest) \<Longrightarrow>
     exhausted (s\<lparr>iters := (iters s)(v \<mapsto> rest')\<rparr>) a0"
  by (auto simp: exhausted_def)

lemma val_round_effect:
  assumes f: "fetch_val_batch s v = Inr (b, v1, s1)"
      and fw: "forward lib (s1\<lparr>data := Some (b_data b), labels := Some (b_labels b)\<rparr>) False = Inr (res, s2)"
  shows "\<exists>pre. trace s2 = trace s @ pre @ [ForwardCall False (r_loss res) (r_accuracy res)] \<and>
           (pre = [] \<or> pre = [Print ''Fetching new validation iterator...'',
                                NewIterator ''validation'' (next_iter s)]) \<and>
           (py_next s v = Inl StopIteration \<longrightarrow> pre \<noteq> [])"
    and "validation_frame s s2"
    and "next_iter s \<le> next_iter s2"
    and "exhausted s a0 \<Longrightarrow> exhausted s2 a0"
    and "training s2 = training s"
proof -
  from forward_effect[OF fw] obtain w' g where
    s2: "s2 = s1\<lparr>data := Some (b_data b), labels := Some (b_labels b), weights := w', loss := Some g,
                  trace := trace s1 @ [ForwardCall False (r_loss res) (r_accuracy res)]\<rparr>"
    by auto
  from fetch_val_batch_cases[OF f]
  consider (plain) rest where "iters s v = Some (Inr b # rest)" "v1 = v"
        "s1 = s\<lparr>iters := (iters s)(v \<mapsto> rest)\<rparr>"
    | (fresh) rest where "py_next s v = Inl StopIteration" "v1 = next_iter s"
        "data_loaders s ''validation'' = Some (Inr b # rest)"
        "s1 = s\<lparr>iters := (iters s)(next_iter s \<mapsto> rest), next_iter := next_iter s + 1,
                    trace := trace s @ [Print ''Fetching new validation iterator...'',
                                        NewIterator ''validation'' (next_iter s)]\<rparr>"
    by blast
  then have "(\<exists>pre. trace s2 = trace s @ pre @ [ForwardCall False (r_loss res) (r_accuracy res)] \<and>
           (pre = [] \<or> pre = [Print ''Fetching new validation iterator...'',
                                NewIterator ''validation'' (next_iter s)]) \<and>
           (py_next s v = Inl StopIteration \<longrightarrow> pre \<noteq> [])) \<and>
         validation_frame s s2 \<and> next_iter s \<le> next_iter s2 \<and>
         (exhausted s a0 \<longrightarrow> exhausted s2 a0) \<and> training s2 = training s"
  proof cases
    case plain
    have "py_next s v \<noteq> Inl StopIteration"
      using plain(1) by (simp add: py_next_def)
    then show ?thesis
      using plain s2
      by (auto simp: validation_frame_def same_setup_def same_books_def exhausted_def)
  next
    case fresh
    then show ?thesis
      using s2
      by (auto simp: validation_frame_def same_setup_def same_books_def exhausted_def)
  qed
  then show "\<exists>pre. trace s2 = trace s @ pre @ [ForwardCall False (r_loss res) (r_accuracy res)] \<and>
           (pre = [] \<or> pre = [Print ''Fetching new validation iterator...'',
                                NewIterator ''validation'' (next_iter s)]) \<and>
           (py_next s v = Inl StopIteration \<longrightarrow> pre \<noteq> [])"
    and "validation_frame s s2"
    and "next_iter s \<le> next_iter s2"
    and "exhausted s a0 \<Longrightarrow> exhausted s2 a0"
    and "training s2 = training s"
    by blast+
qed


lemma validation_frame_refl: "validation_frame s s"
  by (simp add: validation_frame_def same_setup_def same_books_def)

lemma validation_frame_trans:
  "validation_frame s s1 \<Longrightarrow> validation_frame s1 s2 \<Longrightarrow> validation_frame s s2"
  by (simp add: validation_frame_def same_setup_def same_books_def)

lemma validate_batches_effect_conj:
  "validate_batches lib n s v l a = Inr (l', a', s') \<Longrightarrow>
     (\<exists>evs. trace s' = trace s @ evs \<and> length (val_forwards evs) = n \<and>
        l' = l + sum_list (map fst (val_forwards evs)) \<and>
        a' = a + sum_list (map snd (val_forwards evs)) \<and>
        saves_in evs = [] \<and> ModelEval \<notin> set evs \<and>
        (0 < n \<and> py_next s v = Inl StopIteration \<longrightarrow>
           take 1 evs = [Print ''Fetching new validation iterator...''])) \<and>
     validation_frame s s' \<and> next_iter s \<le> next_iter s' \<and>
     (exhausted s a0 \<longrightarrow> exhausted s' a0) \<and> training s' = training s"
proof (induction n arbitrary: s v l a)
  case 0
  then show ?case by (simp add: validation_frame_refl)
next
  case (Suc n)
  from Suc.prems obtain b v1 s1 res s2 where
    f: "fetch_val_batch s v = Inr (b, v1, s1)" and
    fw: "forward lib (s1\<lparr>data := Some (b_data b), labels := Some (b_labels b)\<rparr>) False = Inr (res, s2)" and
    r: "validate_batches lib n s2 v1 (l + r_loss res) (a + r_accuracy res) = Inr (l', a', s')"
    by (auto simp: thenE_Inr_iff)
  from val_round_effect(1)[OF f fw] obtain pre where
    pre: "trace s2 = trace s @ pre @ [ForwardCall False (r_loss res) (r_accuracy res)]"
      "pre = [] \<or> pre = [Print ''Fetching new validation iterator...'',
                                NewIterator ''validation'' (next_iter s)]"
      "py_next s v = Inl StopIteration \<longrightarrow> pre \<noteq> []"
    by blast
  note fr = val_round_effect(2-5)[OF f fw]
  from Suc.IH[OF r] obtain evs where
    ih: "trace s' = trace s2 @ evs" "length (val_forwards evs) = n"
        "l' = l + r_loss res + sum_list (map fst (val_forwards evs))"
        "a' = a + r_accuracy res + sum_list (map snd (val_forwards evs))"
        "saves_in evs = []" "ModelEval \<notin> set evs"
    and ih2: "validation_frame s2 s'" "next_iter s2 \<le> next_iter s'"
        "exhausted s2 a0 \<longrightarrow> exhausted s' a0" "training s' = training s2"
    by blast
  let ?evs = "pre @ [ForwardCall False (r_loss res) (r_accuracy res)] @ evs"
  have vf: "val_forwards pre = []" "saves_in pre = []" "ModelEval \<notin> set pre"
    using pre(2) by auto
  have "trace s' = trace s @ ?evs" using pre(1) ih(1) by simp
  moreover have "length (val_forwards ?evs) = Suc n"
    using ih(2) vf by (simp add: val_forwards_append)
  moreover have "l' = l + sum_list (map fst (val_forwards ?evs))"
    using ih(3) vf by (simp add: val_forwards_append)
  moreover have "a' = a + sum_list (map snd (val_forwards ?evs))"
    using ih(4) vf by (simp add: val_forwards_append)
  moreover have "saves_in ?evs = []"
    using ih(5) vf by (simp add: saves_in_append)
  moreover have "ModelEval \<notin> set ?evs"
    using ih(6) vf by simp
  moreover have "py_next s v = Inl StopIteration \<longrightarrow>
           take 1 ?evs = [Print ''Fetching new validation iterator...'']"
    using pre(2,3) by auto
  ultimately have A: "\<exists>evs. trace s' = trace s @ evs \<and> length (val_forwards evs) = Suc n \<and>
        l' = l + sum_list (map fst (val_forwards evs)) \<and>
        a' = a + sum_list (map snd (val_forwards evs)) \<and>
        saves_in evs = [] \<and> ModelEval \<notin> set evs \<and>
        (0 < Suc n \<and> py_next s v = Inl StopIteration \<longrightarrow>
           take 1 evs = [Print ''Fetching new validation iterator...''])"
    by blast
  have B: "validation_frame s s'"
    using fr(1) ih2(1) by (rule validation_frame_trans)
  have C: "next_iter s \<le> next_iter s'" using fr(2) ih2(2) by simp
  have D: "exhausted s a0 \<longrightarrow> exhausted s' a0" using fr(3) ih2(3) by blast
  have E: "training s' = training s" using fr(4) ih2(4) by simp
  from A B C D E show ?case by blast
qed

lemma py_next_trace_irrelevant:
  "iters s1 = iters s \<Longrightarrow> (py_next s1 v = Inl e) = (py_next s v = Inl e)"
  by (auto simp: py_next_def split: option.splits list.splits sum.splits)

lemma validate_local_effect:
  assumes "validate_local lib s v n = Inr (it, ll, la, s')"
  shows "iteration s = Some it \<and> n \<noteq> 0 \<and>
     (\<exists>evs. trace s' = trace s @ [ModelEval] @ evs @ [ModelTrain] \<and>
        length (val_forwards evs) = nat n \<and>
        ll = sum_list (map fst (val_forwards evs)) / of_int n \<and>
        la = sum_list (map snd (val_forwards evs)) / of_int n \<and>
        saves_in evs = [] \<and> ModelEval \<notin> set evs \<and>
        (0 < n \<and> py_next s v = Inl StopIteration \<longrightarrow>
           take 1 evs = [Print ''Fetching new validation iterator...''])) \<and>
     validation_frame s s' \<and> next_iter s \<le> next_iter s' \<and>
     (exhausted s a0 \<longrightarrow> exhausted s' a0) \<and> training s' = True"
proof -
  let ?s0 = "emit ModelEval (s\<lparr>training := False\<rparr>)"
  from assms obtain l a s1 where
    it: "iteration s = Some it" and n: "n \<noteq> 0" and
    vb: "validate_batches lib (nat n) ?s0 v 0 0 = Inr (l, a, s1)" and
    res: "ll = l / of_int n" "la = a / of_int n" "s' = emit ModelTrain (s1\<lparr>training := True\<rparr>)"
    by (auto simp: validate_local_def Let_def thenE_Inr_iff emit_def
        split: option.splits if_splits)
  from validate_batches_effect_conj[OF vb, of a0] obtain evs where
    e: "trace s1 = trace ?s0 @ evs" "length (val_forwards evs) = nat n"
       "l = 0 + sum_list (map fst (val_forwards evs))"
       "a = 0 + sum_list (map snd (val_forwards evs))"
       "saves_in evs = []" "ModelEval \<notin> set evs"
       "0 < nat n \<and> py_next ?s0 v = Inl StopIteration \<longrightarrow>
           take 1 evs = [Print ''Fetching new validation iterator...'']"
    and fr: "validation_frame ?s0 s1" "next_iter ?s0 \<le> next_iter s1"
       "exhausted ?s0 a0 \<longrightarrow> exhausted s1 a0"
    by blast
  have pn: "(py_next ?s0 v = Inl StopIteration) = (py_next s v = Inl StopIteration)"
    by (rule py_next_trace_irrelevant) (simp add: emit_def)
  have A: "\<exists>evs. trace s' = trace s @ [ModelEval] @ evs @ [ModelTrain] \<and>
        length (val_forwards evs) = nat n \<and>
        ll = sum_list (map fst (val_forwards evs)) / of_int n \<and>
        la = sum_list (map snd (val_forwards evs)) / of_int n \<and>
        saves_in evs = [] \<and> ModelEval \<notin> set evs \<and>
        (0 < n \<and> py_next s v = Inl StopIteration \<longrightarrow>
           take 1 evs = [Print ''Fetching new validation iterator...''])"
    using e res pn by (intro exI[of _ evs]) (simp add: emit_def)
  have B: "validation_frame s s'"
    using fr(1) res(3)
    by (simp add: validation_frame_def same_setup_def same_books_def emit_def)
  have C: "next_iter s \<le> next_iter s'" using fr(2) res(3) by (simp add: emit_def)
  have D: "exhausted s a0 \<longrightarrow> exhausted s' a0"
    using fr(3) res(3) by (simp add: exhausted_def emit_def)
  have E: "training s' = True" using res(3) by (simp add: emit_def)
  from it n A B C D E show ?thesis by blast
qed

lemma validate_rank0_effect:
  assumes "validate_rank0 s it gl ga chk = Inr s2"
  shows "val_log s2 = val_log s @
           [\<lparr>v_iteration = it, v_epoch = epoch s, v_loss = gl, v_accuracy = ga,
             v_saved_best = (if gl < best_validation_loss s then 1 else 0)\<rparr>] \<and>
         best_validation_loss s2 = min (best_validation_loss s) gl \<and>
         (\<exists>evs. trace s2 = trace s @ evs \<and>
            saves_in evs =
              (if gl < best_validation_loss s then [save_filename s ''BEST''] else []) @
              (if chk then [save_filename s []] else []) \<and>
            ModelEval \<notin> set evs \<and> val_forwards evs = []) \<and>
         same_setup s s2 \<and> iteration s2 = iteration s \<and> epoch s2 = epoch s \<and>
         optimizer s2 = optimizer s \<and> iters s2 = iters s \<and> next_iter s2 = next_iter s \<and>
         training s2 = training s"
proof (cases "gl < best_validation_loss s"; cases chk)
  assume a: "gl < best_validation_loss s" "chk"
  from assms a obtain fn1 s1 fn3 s3 where
    1: "save_state (emit (Print ''best validation loss so far!'') (s\<lparr>best_validation_loss := gl\<rparr>)) ''BEST'' = Inr (fn1, s1)"
    and 3: "save_state s1 [] = Inr (fn3, s3)"
    and 2: "s2 = s3\<lparr>val_log := val_log s3 @
                          [\<lparr>v_iteration = it, v_epoch = epoch s3, v_loss = gl,
                            v_accuracy = ga, v_saved_best = 1\<rparr>]\<rparr>"
    unfolding validate_rank0_def by (auto simp: thenE_Inr_iff)
  from 1 obtain it1 opt1 where s1: "fn1 = save_filename s ''BEST''"
     "s1 = s\<lparr>best_validation_loss := gl,
             files := (files s)(fn1 \<mapsto> [''global_step'' \<mapsto> GlobalStep it1,
                                             ''optimizer'' \<mapsto> OptimizerState opt1,
                                             ''state_dict'' \<mapsto> StateDict (weights s)]),
             trace := trace s @ [Print ''best validation loss so far!'', TorchSave fn1,
                                 Print (''Saved checkpoint as: '' @ fn1)]\<rparr>"
    by (auto simp: save_state_Inr_iff emit_def save_filename_def)
  from 3 obtain it3 opt3 where s3: "fn3 = save_filename s1 []"
     "s3 = s1\<lparr>files := (files s1)(fn3 \<mapsto> [''global_step'' \<mapsto> GlobalStep it3,
                                             ''optimizer'' \<mapsto> OptimizerState opt3,
                                             ''state_dict'' \<mapsto> StateDict (weights s1)]),
             trace := trace s1 @ [TorchSave fn3, Print (''Saved checkpoint as: '' @ fn3)]\<rparr>"
    by (auto simp: save_state_Inr_iff)
  show ?thesis
    using a s1 s3 2
    by (simp add: same_setup_def save_filename_def min_def)
next
  assume a: "gl < best_validation_loss s" "\<not> chk"
  from assms a obtain fn1 s1 where
    1: "save_state (emit (Print ''best validation loss so far!'') (s\<lparr>best_validation_loss := gl\<rparr>)) ''BEST'' = Inr (fn1, s1)"
    and 2: "s2 = s1\<lparr>val_log := val_log s1 @
                          [\<lparr>v_iteration = it, v_epoch = epoch s1, v_loss = gl,
                            v_accuracy = ga, v_saved_best = 1\<rparr>]\<rparr>"
    unfolding validate_rank0_def by (auto simp: thenE_Inr_iff)
  from 1 obtain it1 opt1 where s1: "fn1 = save_filename s ''BEST''"
     "s1 = s\<lparr>best_validation_loss := gl,
             files := (files s)(fn1 \<mapsto> [''global_step'' \<mapsto> GlobalStep it1,
                                             ''optimizer'' \<mapsto> OptimizerState opt1,
                                             ''state_dict'' \<mapsto> StateDict (weights s)]),
             trace := trace s @ [Print ''best validation loss so far!'', TorchSave fn1,
                                 Print (''Saved checkpoint as: '' @ fn1)]\<rparr>"
    by (auto simp: save_state_Inr_iff emit_def save_filename_def)
  show ?thesis
    using a s1 2
    by (simp add: same_setup_def save_filename_def min_def)
next
  assume a: "\<not> gl < best_validation_loss s" "chk"
  from assms a obtain fn3 s3 where
     3: "save_state s [] = Inr (fn3, s3)"
    and 2: "s2 = s3\<lparr>val_log := val_log s3 @
                          [\<lparr>v_iteration = it, v_epoch = epoch s3, v_loss = gl,
                            v_accuracy = ga, v_saved_best = 0\<rparr>]\<rparr>"
    unfolding validate_rank0_def by (auto simp: thenE_Inr_iff)
  from 3 obtain it3 opt3 where s3: "fn3 = save_filename s []"
     "s3 = s\<lparr>files := (files s)(fn3 \<mapsto> [''global_step'' \<mapsto> GlobalStep it3,
                                             ''optimizer'' \<mapsto> OptimizerState opt3,
                                             ''state_dict'' \<mapsto> StateDict (weights s)]),
             trace := trace s @ [TorchSave fn3, Print (''Saved checkpoint as: '' @ fn3)]\<rparr>"
    by (auto simp: save_state_Inr_iff)
  show ?thesis
    using a s3 2
    by (simp add: same_setup_def save_filename_def min_def)
next
  assume a: "\<not> gl < best_validation_loss s" "\<not> chk"
  from assms a have
     2: "s2 = s\<lparr>val_log := val_log s @
                          [\<lparr>v_iteration = it, v_epoch = epoch s, v_loss = gl,
                            v_accuracy = ga, v_saved_best = 0\<rparr>]\<rparr>"
    unfolding validate_rank0_def by (auto simp: thenE_Inr_iff)
  show ?thesis
    using a 2
    by (simp add: same_setup_def save_filename_def min_def)
qed

lemma np_mean_single: "np_mean [x] = x"
  by (simp add: np_mean_def)

lemma validate_effect:
  assumes "validate lib s v n chk = Inr s'"
  shows "\<exists>it ll la s1 gl ga. validate_local lib s v n = Inr (it, ll, la, s1) \<and>
           (\<not> is_distributed s \<longrightarrow> gl = ll \<and> ga = la) \<and>
           (is_distributed s \<longrightarrow>
              (\<exists>gls gas. all_gather lib ll = Inr gls \<and> all_gather lib la = Inr gas \<and>
                 gl = np_mean gls \<and> ga = np_mean gas)) \<and>
           (if rank s = 0 then validate_rank0 s1 it gl ga chk = Inr s' else s' = s1)"
proof -
  from assms obtain it ll la s1 gls gas where
    vl: "validate_local lib s v n = Inr (it, ll, la, s1)" and
    g: "(if is_distributed s1 then sync_val_metrics lib ll la else Inr ([ll], [la])) = Inr (gls, gas)" and
    r: "(if rank s1 = 0 then validate_rank0 s1 it (np_mean gls) (np_mean gas) chk else Inr s1) = Inr s'"
    by (auto simp: validate_def thenE_Inr_iff)
  from validate_local_effect[OF vl] have fr: "validation_frame s s1" by blast
  then have eq: "is_distributed s1 = is_distributed s" "rank s1 = rank s"
    by (simp_all add: validation_frame_def same_setup_def)
  have A: "\<not> is_distributed s \<longrightarrow> np_mean gls = ll \<and> np_mean gas = la"
    using g eq by (auto simp: np_mean_single)
  have B: "is_distributed s \<longrightarrow>
              (\<exists>gls' gas'. all_gather lib ll = Inr gls' \<and> all_gather lib la = Inr gas' \<and>
                 np_mean gls = np_mean gls' \<and> np_mean gas = np_mean gas')"
    using g eq by (auto simp: sync_val_metrics_def thenE_Inr_iff)
  have C: "if rank s = 0 then validate_rank0 s1 it (np_mean gls) (np_mean gas) chk = Inr s' else s' = s1"
    using r eq by (auto split: if_splits)
  from vl A B C show ?thesis by blast
qed

lemma validate_summary:
  assumes "validate lib s v n chk = Inr s'"
  shows "same_setup s s' \<and> iteration s' = iteration s \<and> epoch s' = epoch s \<and>
         optimizer s' = optimizer s \<and> next_iter s \<le> next_iter s' \<and>
         (exhausted s a0 \<longrightarrow> exhausted s' a0) \<and> n \<noteq> 0 \<and> iteration s \<noteq> None \<and>
         (\<exists>evs. trace s' = trace s @ ModelEval # evs \<and> ModelEval \<notin> set evs \<and>
            length (val_forwards evs) = nat n \<and>
            (0 < n \<and> py_next s v = Inl StopIteration \<longrightarrow>
               take 1 evs = [Print ''Fetching new validation iterator...'']) \<and>
            (rank s \<noteq> 0 \<longrightarrow> saves_in evs = [])) \<and>
         (rank s \<noteq> 0 \<longrightarrow> same_books s s') \<and>
         (rank s = 0 \<longrightarrow>
            (\<exists>row. val_log s' = val_log s @ [row] \<and>
               v_saved_best row = (if v_loss row < best_validation_loss s then 1 else 0) \<and>
               best_validation_loss s' = min (best_validation_loss s) (v_loss row) \<and>
               v_iteration row = the (iteration s) \<and>
               saves_in (new_events s s') =
                 (if v_loss row < best_validation_loss s then [save_filename s ''BEST''] else []) @
                 (if chk then [save_filename s []] else [])))"
proof -
  from validate_effect[OF assms] obtain it ll la s1 gl ga where
    vl: "validate_local lib s v n = Inr (it, ll, la, s1)" and
    r: "if rank s = 0 then validate_rank0 s1 it gl ga chk = Inr s' else s' = s1"
    by blast
  from validate_local_effect[OF vl, of a0] obtain evs where
    l: "iteration s = Some it" "n \<noteq> 0"
       "trace s1 = trace s @ [ModelEval] @ evs @ [ModelTrain]"
       "length (val_forwards evs) = nat n" "saves_in evs = []" "ModelEval \<notin> set evs"
       "0 < n \<and> py_next s v = Inl StopIteration \<longrightarrow>
           take 1 evs = [Print ''Fetching new validation iterator...'']"
       "validation_frame s s1" "next_iter s \<le> next_iter s1"
       "exhausted s a0 \<longrightarrow> exhausted s1 a0"
    by blast
  have tk: "0 < n \<and> py_next s v = Inl StopIteration \<longrightarrow>
           take 1 (evs @ ys) = [Print ''Fetching new validation iterator...'']" for ys
    using l(7) by (cases evs) auto
  have fr: "same_setup s s1" "same_books s s1" "iteration s1 = iteration s" "epoch s1 = epoch s"
      "optimizer s1 = optimizer s"
    using l(8) by (simp_all add: validation_frame_def)
  show ?thesis
  proof (cases "rank s = 0")
    case False
    with r have s': "s' = s1" by simp
    have "trace s' = trace s @ ModelEval # (evs @ [ModelTrain]) \<and> ModelEval \<notin> set (evs @ [ModelTrain]) \<and>
            length (val_forwards (evs @ [ModelTrain])) = nat n \<and>
            (rank s \<noteq> 0 \<longrightarrow> saves_in (evs @ [ModelTrain]) = [])"
      using l(3,4,5,6) s' by (simp add: val_forwards_append saves_in_append)
    with tk[of "[ModelTrain]"] have "\<exists>evs. trace s' = trace s @ ModelEval # evs \<and> ModelEval \<notin> set evs \<and>
            length (val_forwards evs) = nat n \<and>
            (0 < n \<and> py_next s v = Inl StopIteration \<longrightarrow>
               take 1 evs = [Print ''Fetching new validation iterator...'']) \<and>
            (rank s \<noteq> 0 \<longrightarrow> saves_in evs = [])"
      by blast
    with False l fr s' show ?thesis by simp
  next
    case True
    with r have r0: "validate_rank0 s1 it gl ga chk = Inr s'" by simp
    from validate_rank0_effect[OF r0] obtain evs2 where
      v: "val_log s' = val_log s1 @
           [\<lparr>v_iteration = it, v_epoch = epoch s1, v_loss = gl, v_accuracy = ga,
             v_saved_best = (if gl < best_validation_loss s1 then 1 else 0)\<rparr>]"
         "best_validation_loss s' = min (best_validation_loss s1) gl"
         "trace s' = trace s1 @ evs2"
         "saves_in evs2 =
              (if gl < best_validation_loss s1 then [save_filename s1 ''BEST''] else []) @
              (if chk then [save_filename s1 []] else [])"
         "ModelEval \<notin> set evs2" "val_forwards evs2 = []"
         "same_setup s1 s'" "iteration s' = iteration s1" "epoch s' = epoch s1"
         "optimizer s' = optimizer s1" "iters s' = iters s1" "next_iter s' = next_iter s1"
      by blast
    have sf: "save_filename s1 x = save_filename s x" for x
      using fr(1) by (simp add: save_filename_def same_setup_def)
    have bk: "best_validation_loss s1 = best_validation_loss s" "val_log s1 = val_log s"
      using fr(2) by (simp_all add: same_books_def)
    let ?evs = "evs @ [ModelTrain] @ evs2"
    have tr: "trace s' = trace s @ ModelEval # ?evs" using l(3) v(3) by simp
    have "ModelEval \<notin> set ?evs \<and> length (val_forwards ?evs) = nat n \<and>
            (rank s \<noteq> 0 \<longrightarrow> saves_in ?evs = [])"
      using l(4,6) v(5,6) True by (simp add: val_forwards_append)
    with tr tk[of "[ModelTrain] @ evs2"] have A: "\<exists>evs. trace s' = trace s @ ModelEval # evs \<and> ModelEval \<notin> set evs \<and>
            length (val_forwards evs) = nat n \<and>
            (0 < n \<and> py_next s v = Inl StopIteration \<longrightarrow>
               take 1 evs = [Print ''Fetching new validation iterator...'']) \<and>
            (rank s \<noteq> 0 \<longrightarrow> saves_in evs = [])"
      by blast
    have ne: "new_events s s' = ModelEval # ?evs"
      using tr by (simp add: new_events_def)
    let ?row = "\<lparr>v_iteration = it, v_epoch = epoch s1, v_loss = gl, v_accuracy = ga,
             v_saved_best = (if gl < best_validation_loss s then 1 else 0)\<rparr>"
    have "val_log s' = val_log s @ [?row] \<and>
               v_saved_best ?row = (if v_loss ?row < best_validation_loss s then 1 else 0) \<and>
               best_validation_loss s' = min (best_validation_loss s) (v_loss ?row) \<and>
               v_iteration ?row = the (iteration s) \<and>
               saves_in (new_events s s') =
                 (if v_loss ?row < best_validation_loss s then [save_filename s ''BEST''] else []) @
                 (if chk then [save_filename s []] else [])"
      using v(1,2,4) bk sf l(1,5) ne by (simp add: saves_in_append)
    then have B: "\<exists>row. val_log s' = val_log s @ [row] \<and>
               v_saved_best row = (if v_loss row < best_validation_loss s then 1 else 0) \<and>
               best_validation_loss s' = min (best_validation_loss s) (v_loss row) \<and>
               v_iteration row = the (iteration s) \<and>
               saves_in (new_events s s') =
                 (if v_loss row < best_validation_loss s then [save_filename s ''BEST''] else []) @
                 (if chk then [save_filename s []] else [])"
      by blast
    have C: "same_setup s s'" using fr(1) v(7) by (simp add: same_setup_def)
    have D: "exhausted s a0 \<longrightarrow> exhausted s' a0"
      using l(10) v(11,12) by (simp add: exhausted_def)
    from A B C D True l fr v show ?thesis by simp
  qed
qed

lemma running_min_snoc: "running_min b (rows @ [r]) = min (running_min b rows) (v_loss r)"
  by (simp add: running_min_def)

lemma tracks_minimum_snoc:
  "tracks_minimum b (rows @ [r]) \<longleftrightarrow>
     tracks_minimum b rows \<and> v_saved_best r = (if v_loss r < running_min b rows then 1 else 0)"
proof (induction rows arbitrary: b)
  case Nil
  show ?case by (simp add: running_min_def)
next
  case (Cons x xs)
  have "running_min b (x # xs) = running_min (min b (v_loss x)) xs"
    by (simp add: running_min_def)
  with Cons show ?case by auto
qed


lemma best_tracked_iff:
  "best_tracked b pre s \<longleftrightarrow>
     (\<exists>rows. val_log s = pre @ rows \<and> tracks_minimum b rows \<and>
        best_validation_loss s = running_min b rows)"
proof
  assume h: "best_tracked b pre s"
  then have "val_log s = pre @ drop (length pre) (val_log s)"
    by (metis append_take_drop_id best_tracked_def)
  with h show "\<exists>rows. val_log s = pre @ rows \<and> tracks_minimum b rows \<and>
        best_validation_loss s = running_min b rows"
    unfolding best_tracked_def by blast
next
  assume "\<exists>rows. val_log s = pre @ rows \<and> tracks_minimum b rows \<and>
        best_validation_loss s = running_min b rows"
  then show "best_tracked b pre s" by (auto simp: best_tracked_def)
qed

lemma best_tracked_same_books:
  "same_books s s' \<Longrightarrow> best_tracked b pre s \<Longrightarrow> best_tracked b pre s'"
  by (simp add: best_tracked_def same_books_def)

lemma best_tracked_row:
  assumes "best_tracked b pre s" and "val_log s' = val_log s @ [row]"
      and "v_saved_best row = (if v_loss row < best_validation_loss s then 1 else 0)"
      and "best_validation_loss s' = min (best_validation_loss s) (v_loss row)"
  shows "best_tracked b pre s'"
proof -
  from assms(1) obtain rows where r: "val_log s = pre @ rows" "tracks_minimum b rows"
      "best_validation_loss s = running_min b rows"
    by (auto simp: best_tracked_iff)
  have "val_log s' = pre @ (rows @ [row])" using r(1) assms(2) by simp
  moreover have "tracks_minimum b (rows @ [row])"
    using r(2,3) assms(3) by (simp add: tracks_minimum_snoc)
  moreover have "best_validation_loss s' = running_min b (rows @ [row])"
    using r(3) assms(4) by (simp add: running_min_snoc)
  ultimately show ?thesis unfolding best_tracked_iff by blast
qed

lemma validate_best_tracked:
  assumes "validate lib s v n chk = Inr s'" and "best_tracked b pre s"
  shows "best_tracked b pre s'"
proof (cases "rank s = 0")
  case True
  with validate_summary[OF assms(1)] obtain row where
    "val_log s' = val_log s @ [row]"
    "v_saved_best row = (if v_loss row < best_validation_loss s then 1 else 0)"
    "best_validation_loss s' = min (best_validation_loss s) (v_loss row)"
    by blast
  with assms(2) show ?thesis by (rule best_tracked_row)
next
  case False
  with validate_summary[OF assms(1)] have "same_books s s'" by blast
  then show ?thesis using assms(2) by (rule best_tracked_same_books)
qed

lemma evals_recover_no_eval: "ModelEval \<notin> set evs \<Longrightarrow> evals_recover evs"
  by (induction evs rule: evals_recover.induct) simp_all

lemma evals_recover_append:
  "evals_recover xs \<Longrightarrow> evals_recover ys \<Longrightarrow> xs = [] \<or> last xs \<noteq> ModelEval \<Longrightarrow>
     evals_recover (xs @ ys)"
proof (induction xs rule: evals_recover.induct)
  case 1
  then show ?case by simp
next
  case (2 evs)
  then have "evs \<noteq> []" by auto
  with 2 show ?case by (cases evs) auto
qed (auto split: if_splits)

lemma recovering_append: "recovering xs \<Longrightarrow> recovering ys \<Longrightarrow> recovering (xs @ ys)"
  by (cases "ys = []") (auto simp: recovering_def evals_recover_append)

lemma recovering_Nil: "recovering []"
  by (simp add: recovering_def)

lemma recovering_no_eval:
  assumes "ModelEval \<notin> set evs"
  shows "recovering evs"
proof (cases "evs = []")
  case True
  then show ?thesis by (simp add: recovering_def)
next
  case False
  then have "last evs \<in> set evs" by (rule last_in_set)
  with assms have "last evs \<noteq> ModelEval" by metis
  with assms show ?thesis by (simp add: recovering_def evals_recover_no_eval)
qed

lemma recovering_validate:
  assumes "take 1 evs = [Print ''Fetching new validation iterator...'']" and "ModelEval \<notin> set evs"
  shows "recovering (ModelEval # evs)"
proof -
  from assms(1) have ne: "evs \<noteq> []" by auto
  then have "last (ModelEval # evs) \<in> set evs" by simp
  with assms(2) have "last (ModelEval # evs) \<noteq> ModelEval" by metis
  with assms show ?thesis by (simp add: recovering_def evals_recover_no_eval)
qed

lemma train_on_batch_effect:
  assumes "train_on_batch lib cfg s b = Inr s'"
  shows "same_setup s s' \<and> same_books s s' \<and> epoch s' = epoch s \<and> iters s' = iters s \<and>
         next_iter s' = next_iter s \<and>
         (\<exists>it. iteration s = Some it \<and> iteration s' = Some (it + 1)) \<and>
         (\<exists>l ac post. trace s' = trace s @ [ForwardCall True l ac, BackwardCall] @ post \<and>
            (post = [] \<or> post = [Print ''... Iteration ...'']))"
proof -
  let ?s0 = "s\<lparr>data := Some (b_data b), labels := Some (b_labels b)\<rparr>"
  from assms obtain res s1 s2 where
    fw: "forward lib ?s0 True = Inr (res, s1)" and
    bw: "backward lib s1 = Inr s2" and
    rest: "(case iteration s2 of
                   None \<Rightarrow> Inl AttributeError
                 | Some it \<Rightarrow>
                    (let s3 = s2\<lparr>step := step s2 + 1, iteration := Some (it + 1)\<rparr>;
                         s4 = s3\<lparr>train_log := train_log s3 @
                                 [\<lparr>t_iteration = it + 1, t_epoch = epoch s3,
                                   t_loss = r_loss res, t_accuracy = r_accuracy res\<rparr>]\<rparr>
                     in if rank s4 = 0 then
                          (if report_interval cfg = 0 then Inl ZeroDivisionError
                           else if (it + 1) mod report_interval cfg = 0
                                then Inr (emit (Print ''... Iteration ...'') s4)
                                else Inr s4)
                        else Inr s4)) = Inr s'"
    unfolding train_on_batch_def by (auto simp: thenE_Inr_iff)
  from forward_effect[OF fw] obtain w1 g where
    s1: "s1 = ?s0\<lparr>weights := w1, loss := Some g,
                   trace := trace s @ [ForwardCall True (r_loss res) (r_accuracy res)]\<rparr>"
    by auto
  from backward_effect[OF bw] obtain w2 o2 where
    s2: "s2 = s1\<lparr>weights := w2, optimizer := Some o2, trace := trace s1 @ [BackwardCall]\<rparr>"
    by auto
  obtain it where it: "iteration s2 = Some it"
    using rest by (cases "iteration s2") auto
  let ?s4 = "s2\<lparr>step := step s2 + 1, iteration := Some (it + 1),
                train_log := train_log s2 @
                                 [\<lparr>t_iteration = it + 1, t_epoch = epoch s2,
                                   t_loss = r_loss res, t_accuracy = r_accuracy res\<rparr>]\<rparr>"
  from rest it have "s' = ?s4 \<or> s' = emit (Print ''... Iteration ...'') ?s4"
    by (auto simp: Let_def split: if_splits)
  then show ?thesis
  proof
    assume e: "s' = ?s4"
    have "trace s' = trace s @ [ForwardCall True (r_loss res) (r_accuracy res), BackwardCall] @ []"
      using e s1 s2 by simp
    then have "\<exists>l ac post. trace s' = trace s @ [ForwardCall True l ac, BackwardCall] @ post \<and>
            (post = [] \<or> post = [Print ''... Iteration ...''])" by blast
    moreover have "same_setup s s' \<and> same_books s s' \<and> epoch s' = epoch s \<and> iters s' = iters s \<and>
         next_iter s' = next_iter s \<and> iteration s = Some it \<and> iteration s' = Some (it + 1)"
      using e s1 s2 it by (simp add: same_setup_def same_books_def)
    ultimately show ?thesis by blast
  next
    assume e: "s' = emit (Print ''... Iteration ...'') ?s4"
    have "trace s' = trace s @ [ForwardCall True (r_loss res) (r_accuracy res), BackwardCall] @
            [Print ''... Iteration ...'']"
      using e s1 s2 by (simp add: emit_def)
    then have "\<exists>l ac post. trace s' = trace s @ [ForwardCall True l ac, BackwardCall] @ post \<and>
            (post = [] \<or> post = [Print ''... Iteration ...''])" by blast
    moreover have "same_setup s s' \<and> same_books s s' \<and> epoch s' = epoch s \<and> iters s' = iters s \<and>
         next_iter s' = next_iter s \<and> iteration s = Some it \<and> iteration s' = Some (it + 1)"
      using e s1 s2 it by (simp add: same_setup_def same_books_def emit_def)
    ultimately show ?thesis by blast
  qed
qed

lemma same_setup_trans: "same_setup s s1 \<Longrightarrow> same_setup s1 s2 \<Longrightarrow> same_setup s s2"
  by (simp add: same_setup_def)

lemma same_setup_refl: "same_setup s s"
  by (simp add: same_setup_def)

lemma exhausted_cong:
  "iters s' = iters s \<Longrightarrow> next_iter s' = next_iter s \<Longrightarrow> exhausted s' a = exhausted s a"
  by (simp add: exhausted_def)

lemma py_next_exhausted: "exhausted s a \<Longrightarrow> py_next s a = Inl StopIteration"
  by (simp add: exhausted_def py_next_def)

text \<open>What one round of the batch loop keeps, for the loops above it.\<close>

lemma train_batch_summary:
  assumes "train_batch lib cfg a s i b = Inr s'"
  shows "same_setup s s' \<and> epoch s' = epoch s \<and>
         (\<exists>it. iteration s = Some it \<and> iteration s' = Some (it + 1)) \<and>
         (exhausted s a0 \<longrightarrow> exhausted s' a0) \<and>
         (best_tracked bv pre s \<longrightarrow> best_tracked bv pre s') \<and>
         (\<exists>evs. trace s' = trace s @ evs \<and>
            (exhausted s a \<and> 0 < num_val_batches cfg \<longrightarrow> recovering evs))"
proof -
  let ?s0 = "s\<lparr>step := i\<rparr>"
  from assms obtain it s1 where
    it: "iteration s = Some it" and vi: "val_interval cfg \<noteq> 0" and
    v: "(if it mod val_interval cfg = 0
                  then validate lib ?s0 a (num_val_batches cfg) (checkpointing cfg)
                  else Inr ?s0) = Inr s1" and
    t: "train_on_batch lib cfg s1 b = Inr s'"
    unfolding train_batch_def
    by (auto simp: Let_def thenE_Inr_iff split: option.splits if_splits)
  from train_on_batch_effect[OF t] obtain l ac post where
    tb: "same_setup s1 s'" "same_books s1 s'" "epoch s' = epoch s1" "iters s' = iters s1"
        "next_iter s' = next_iter s1"
        "\<exists>it. iteration s1 = Some it \<and> iteration s' = Some (it + 1)"
        "trace s' = trace s1 @ [ForwardCall True l ac, BackwardCall] @ post"
        "post = [] \<or> post = [Print ''... Iteration ...'']"
    by blast
  have rpost: "recovering ([ForwardCall True l ac, BackwardCall] @ post)"
    using tb(8) by (intro recovering_no_eval) auto
  have s0: "same_setup s ?s0" "epoch ?s0 = epoch s" "iteration ?s0 = iteration s"
     "exhausted ?s0 a0 = exhausted s a0" "exhausted ?s0 a = exhausted s a"
     "best_tracked bv pre ?s0 = best_tracked bv pre s" "trace ?s0 = trace s"
    by (simp_all add: same_setup_def exhausted_def best_tracked_def)
  show ?thesis
  proof (cases "it mod val_interval cfg = 0")
    case False
    with v have s1: "s1 = ?s0" by simp
    have "trace s' = trace s @ ([ForwardCall True l ac, BackwardCall] @ post)"
      using tb(7) s1 by simp
    with rpost have E: "\<exists>evs. trace s' = trace s @ evs \<and>
            (exhausted s a \<and> 0 < num_val_batches cfg \<longrightarrow> recovering evs)" by blast
    have "same_setup s s'" using s0(1) tb(1) s1 by (simp add: same_setup_def)
    moreover have "epoch s' = epoch s" using tb(3) s1 by simp
    moreover have "\<exists>it. iteration s = Some it \<and> iteration s' = Some (it + 1)"
      using tb(6) s1 by simp
    moreover have "exhausted s a0 \<longrightarrow> exhausted s' a0"
      using tb(4,5) s1 by (simp add: exhausted_def)
    moreover have "best_tracked bv pre s \<longrightarrow> best_tracked bv pre s'"
      using tb(2) s1 by (simp add: best_tracked_def same_books_def)
    ultimately show ?thesis using E by blast
  next
    case True
    with v have vv: "validate lib ?s0 a (num_val_batches cfg) (checkpointing cfg) = Inr s1" by simp
    from validate_summary[OF vv, of a0] obtain evs where
      vs: "same_setup ?s0 s1" "iteration s1 = iteration ?s0" "epoch s1 = epoch ?s0"
          "exhausted ?s0 a0 \<longrightarrow> exhausted s1 a0"
          "trace s1 = trace ?s0 @ ModelEval # evs" "ModelEval \<notin> set evs"
          "0 < num_val_batches cfg \<and> py_next ?s0 a = Inl StopIteration \<longrightarrow>
               take 1 evs = [Print ''Fetching new validation iterator...'']"
      by blast
    have bt: "best_tracked bv pre ?s0 \<longrightarrow> best_tracked bv pre s1"
      using validate_best_tracked[OF vv] by blast
    have rv: "exhausted s a \<and> 0 < num_val_batches cfg \<longrightarrow> recovering (ModelEval # evs)"
      using vs(6,7) s0(5) py_next_exhausted[of ?s0 a] by (auto intro: recovering_validate)
    have tr: "trace s' = trace s @ ((ModelEval # evs) @ ([ForwardCall True l ac, BackwardCall] @ post))"
      using tb(7) vs(5) by simp
    have "exhausted s a \<and> 0 < num_val_batches cfg \<longrightarrow>
            recovering ((ModelEval # evs) @ ([ForwardCall True l ac, BackwardCall] @ post))"
      using rv recovering_append[OF _ rpost, of "ModelEval # evs"] by blast
    with tr have E: "\<exists>evs. trace s' = trace s @ evs \<and>
            (exhausted s a \<and> 0 < num_val_batches cfg \<longrightarrow> recovering evs)" by blast
    have "same_setup s s'"
      using s0(1) vs(1) tb(1) by (simp add: same_setup_def)
    moreover have "epoch s' = epoch s" using tb(3) vs(3) by simp
    moreover have "\<exists>it. iteration s = Some it \<and> iteration s' = Some (it + 1)"
      using tb(6) vs(2) by simp
    moreover have "exhausted s a0 \<longrightarrow> exhausted s' a0"
      using vs(4) s0(4) tb(4,5) by (simp add: exhausted_def)
    moreover have "best_tracked bv pre s \<longrightarrow> best_tracked bv pre s'"
      using bt s0(6) tb(2) by (simp add: best_tracked_def same_books_def)
    ultimately show ?thesis using E by blast
  qed
qed

text \<open>What a run of training steps keeps: the loops share one summary.\<close>

lemma train_batches_summary:
  "train_batches lib cfg a s i items = Inr s' \<Longrightarrow>
     same_setup s s' \<and> epoch s' = epoch s \<and>
     (iteration s \<noteq> None \<longrightarrow> iteration s' \<noteq> None) \<and>
     (exhausted s a \<longrightarrow> exhausted s' a) \<and>
     (best_tracked bv pre s \<longrightarrow> best_tracked bv pre s') \<and>
     (\<exists>evs. trace s' = trace s @ evs \<and>
        (exhausted s a \<and> 0 < num_val_batches cfg \<longrightarrow> recovering evs))"
proof (induction lib cfg a s i items rule: train_batches.induct)
  case (1 lib cfg val_iter s i)
  then have "s' = s" by simp
  then show ?case using recovering_Nil by (auto simp: same_setup_refl)
next
  case (2 lib cfg val_iter s i e rest)
  then have "s' = s" by (simp split: if_splits)
  then show ?case using recovering_Nil by (auto simp: same_setup_refl)
next
  case (3 lib cfg val_iter s i train_data rest)
  from "3.prems" obtain s1 where
    b: "train_batch lib cfg val_iter s i train_data = Inr s1" and
    r: "train_batches lib cfg val_iter s1 (i + 1) rest = Inr s'"
    by (auto simp: thenE_Inr_iff)
  from train_batch_summary[OF b, of val_iter bv pre] obtain evs1 where
    h1: "same_setup s s1" "epoch s1 = epoch s"
        "\<exists>it. iteration s = Some it \<and> iteration s1 = Some (it + 1)"
        "exhausted s val_iter \<longrightarrow> exhausted s1 val_iter"
        "best_tracked bv pre s \<longrightarrow> best_tracked bv pre s1"
        "trace s1 = trace s @ evs1"
        "exhausted s val_iter \<and> 0 < num_val_batches cfg \<longrightarrow> recovering evs1"
    by blast
  from "3.IH"[OF r] obtain evs2 where
    h2: "same_setup s1 s'" "epoch s' = epoch s1"
        "iteration s1 \<noteq> None \<longrightarrow> iteration s' \<noteq> None"
        "exhausted s1 val_iter \<longrightarrow> exhausted s' val_iter"
        "best_tracked bv pre s1 \<longrightarrow> best_tracked bv pre s'"
        "trace s' = trace s1 @ evs2"
        "exhausted s1 val_iter \<and> 0 < num_val_batches cfg \<longrightarrow> recovering evs2"
    by blast
  have tr: "trace s' = trace s @ (evs1 @ evs2)" using h1(6) h2(6) by simp
  have "exhausted s val_iter \<and> 0 < num_val_batches cfg \<longrightarrow> recovering (evs1 @ evs2)"
    using h1(4,7) h2(7) recovering_append by blast
  with tr have E: "\<exists>evs. trace s' = trace s @ evs \<and>
        (exhausted s val_iter \<and> 0 < num_val_batches cfg \<longrightarrow> recovering evs)" by blast
  have "same_setup s s'" using h1(1) h2(1) by (rule same_setup_trans)
  moreover have "epoch s' = epoch s" using h1(2) h2(2) by simp
  moreover have "iteration s \<noteq> None \<longrightarrow> iteration s' \<noteq> None" using h1(3) h2(3) by auto
  moreover have "exhausted s val_iter \<longrightarrow> exhausted s' val_iter" using h1(4) h2(4) by blast
  moreover have "best_tracked bv pre s \<longrightarrow> best_tracked bv pre s'" using h1(5) h2(5) by blast
  ultimately show ?case using E by blast
qed

lemma epoch_end_effect:
  assumes "epoch_end lib cfg s = Inr s'"
  shows "same_setup s s' \<and> same_books s s' \<and> epoch s' = epoch s \<and> iteration s' = iteration s \<and>
         iters s' = iters s \<and> next_iter s' = next_iter s \<and>
         (\<exists>evs. trace s' = trace s @ evs \<and> ModelEval \<notin> set evs \<and>
            saves_in evs =
              (case save_interval cfg of
                 None \<Rightarrow> []
               | Some k \<Rightarrow> if (epoch s + 1) mod k = 0
                           then [save_filename s (''_epoch_'' @ str_int (epoch s + 1))]
                           else []))"
proof -
  from assms obtain s1 where
    sch: "(case scheduler s of
              None \<Rightarrow> Inr s
            | Some sch \<Rightarrow>
               (case sched_step lib sch (optimizer s) of
                  Inl e \<Rightarrow> Inl e
                | Inr (sch', opt') \<Rightarrow>
                   Inr (emit SchedulerStep (s\<lparr>scheduler := Some sch', optimizer := opt'\<rparr>)))) = Inr s1"
    and sv: "(case save_interval cfg of
                None \<Rightarrow> Inr s1
              | Some k \<Rightarrow>
                 if k = 0 then Inl ZeroDivisionError
                 else if (epoch s1 + 1) mod k = 0 then
                   thenE (save_state s1 (''_epoch_'' @ str_int (epoch s1 + 1)))
                     (\<lambda>(filename, s2). Inr s2)
                 else Inr s1) = Inr s'"
    unfolding epoch_end_def by (auto simp: thenE_Inr_iff)
  have "\<exists>evs1. same_setup s s1 \<and> same_books s s1 \<and> epoch s1 = epoch s \<and> iteration s1 = iteration s \<and>
       iters s1 = iters s \<and> next_iter s1 = next_iter s \<and> trace s1 = trace s @ evs1 \<and>
       ModelEval \<notin> set evs1 \<and> saves_in evs1 = []"
  proof (cases "scheduler s")
    case None
    with sch have "s1 = s" by simp
    then show ?thesis by (intro exI[of _ "[]"]) (simp add: same_setup_def same_books_def)
  next
    case (Some sc)
    with sch obtain sch' opt' where
      "s1 = emit SchedulerStep (s\<lparr>scheduler := Some sch', optimizer := opt'\<rparr>)"
      by (cases "sched_step lib sc (optimizer s)") auto
    then show ?thesis
      by (intro exI[of _ "[SchedulerStep]"]) (simp add: same_setup_def same_books_def emit_def)
  qed
  then obtain evs1 where
    a: "same_setup s s1" "same_books s s1" "epoch s1 = epoch s" "iteration s1 = iteration s"
       "iters s1 = iters s" "next_iter s1 = next_iter s" "trace s1 = trace s @ evs1"
       "ModelEval \<notin> set evs1" "saves_in evs1 = []"
    by blast
  have sf: "save_filename s1 x = save_filename s x" for x
    using a(1) by (simp add: save_filename_def same_setup_def)
  show ?thesis
  proof (cases "\<exists>k. save_interval cfg = Some k \<and> (epoch s1 + 1) mod k = 0")
    case False
    have "s' = s1"
    proof (cases "save_interval cfg")
      case None
      with sv show ?thesis by simp
    next
      case (Some k)
      with False have "(epoch s1 + 1) mod k \<noteq> 0" by simp
      with sv Some show ?thesis by (simp split: if_splits)
    qed
    moreover have "(case save_interval cfg of
                 None \<Rightarrow> []
               | Some k \<Rightarrow> if (epoch s + 1) mod k = 0
                           then [save_filename s (''_epoch_'' @ str_int (epoch s + 1))]
                           else []) = []"
      using False a(3) by (cases "save_interval cfg") simp_all
    ultimately have "trace s' = trace s @ evs1 \<and> ModelEval \<notin> set evs1 \<and>
            saves_in evs1 =
              (case save_interval cfg of
                 None \<Rightarrow> []
               | Some k \<Rightarrow> if (epoch s + 1) mod k = 0
                           then [save_filename s (''_epoch_'' @ str_int (epoch s + 1))]
                           else [])"
      using a(7,8,9) by simp
    then have "\<exists>evs. trace s' = trace s @ evs \<and> ModelEval \<notin> set evs \<and>
            saves_in evs =
              (case save_interval cfg of
                 None \<Rightarrow> []
               | Some k \<Rightarrow> if (epoch s + 1) mod k = 0
                           then [save_filename s (''_epoch_'' @ str_int (epoch s + 1))]
                           else [])"
      by blast
    with a(1-6) \<open>s' = s1\<close> show ?thesis by simp
  next
    case True
    then obtain k where kk: "save_interval cfg = Some k \<and> (epoch s1 + 1) mod k = 0" ..
    then have k: "save_interval cfg = Some k" "(epoch s1 + 1) mod k = 0" by simp_all
    have k0: "k \<noteq> 0"
    proof
      assume "k = 0"
      with sv k(1) show False by simp
    qed
    from sv k k0 have "thenE (save_state s1 (''_epoch_'' @ str_int (epoch s1 + 1)))
                     (\<lambda>(filename, s2). Inr s2) = Inr s'" by simp
    then obtain fn where
      ss: "save_state s1 (''_epoch_'' @ str_int (epoch s1 + 1)) = Inr (fn, s')"
      by (auto simp: thenE_Inr_iff)
    from ss obtain it opt where
      s': "fn = save_filename s1 (''_epoch_'' @ str_int (epoch s1 + 1))"
          "s' = s1\<lparr>files := (files s1)(fn \<mapsto> [''global_step'' \<mapsto> GlobalStep it,
                                             ''optimizer'' \<mapsto> OptimizerState opt,
                                             ''state_dict'' \<mapsto> StateDict (weights s1)]),
                    trace := trace s1 @ [TorchSave fn, Print (''Saved checkpoint as: '' @ fn)]\<rparr>"
      by (auto simp: save_state_Inr_iff)
    let ?evs = "evs1 @ [TorchSave fn, Print (''Saved checkpoint as: '' @ fn)]"
    have A: "trace s' = trace s @ ?evs \<and> ModelEval \<notin> set ?evs \<and>
          saves_in ?evs = [save_filename s (''_epoch_'' @ str_int (epoch s + 1))]"
      using s' a(3,7,8,9) sf by (simp add: saves_in_append)
    have B: "(case save_interval cfg of
                 None \<Rightarrow> []
               | Some k \<Rightarrow> if (epoch s + 1) mod k = 0
                           then [save_filename s (''_epoch_'' @ str_int (epoch s + 1))]
                           else []) = [save_filename s (''_epoch_'' @ str_int (epoch s + 1))]"
      using k a(3) by simp
    have "\<exists>evs. trace s' = trace s @ evs \<and> ModelEval \<notin> set evs \<and>
            saves_in evs =
              (case save_interval cfg of
                 None \<Rightarrow> []
               | Some k \<Rightarrow> if (epoch s + 1) mod k = 0
                           then [save_filename s (''_epoch_'' @ str_int (epoch s + 1))]
                           else [])"
      unfolding B using A by blast
    moreover have "same_setup s s' \<and> same_books s s' \<and> epoch s' = epoch s \<and>
        iteration s' = iteration s \<and> iters s' = iters s \<and> next_iter s' = next_iter s"
      using s'(2) a by (simp add: same_setup_def same_books_def)
    ultimately show ?thesis by blast
  qed
qed

lemma train_epoch_summary:
  assumes "train_epoch lib cfg a s ep = Inr s'"
  shows "same_setup s s' \<and>
     (iteration s \<noteq> None \<longrightarrow> iteration s' \<noteq> None) \<and>
     (exhausted s a \<longrightarrow> exhausted s' a) \<and>
     (best_tracked bv pre s \<longrightarrow> best_tracked bv pre s') \<and>
     (\<exists>evs. trace s' = trace s @ evs \<and>
        (exhausted s a \<and> 0 < num_val_batches cfg \<longrightarrow> recovering evs))"
proof -
  let ?s0 = "s\<lparr>epoch := ep\<rparr>"
  let ?s1 = "(if rank ?s0 = 0 then emit (Print (''Epoch '' @ str_int (ep + 1) @ '' Starting'')) ?s0
                else ?s0)"
  let ?s2 = "?s1\<lparr>step := 0\<rparr>"
  let ?s3 = "(if is_distributed ?s2 then emit (SetEpoch ep) ?s2 else ?s2)"
  from assms obtain train_loader s4 where
    tb: "train_batches lib cfg a ?s3 0 train_loader = Inr s4" and
    ee: "epoch_end lib cfg s4 = Inr s'"
    unfolding train_epoch_def Let_def
    by (auto simp: thenE_Inr_iff split: option.splits)
  obtain evs0 where
    p: "trace ?s3 = trace s @ evs0" "ModelEval \<notin> set evs0"
    by (cases "rank s = 0"; cases "is_distributed s"; simp add: emit_def)
  have f: "same_setup s ?s3" "iteration ?s3 = iteration s" "iters ?s3 = iters s"
     "next_iter ?s3 = next_iter s" "val_log ?s3 = val_log s"
     "best_validation_loss ?s3 = best_validation_loss s"
    by (simp_all add: same_setup_def emit_def)
  have ex3: "exhausted ?s3 a = exhausted s a"
    using f(3,4) by (simp only: exhausted_def)
  have bt3: "best_tracked bv pre ?s3 = best_tracked bv pre s"
    using f(5,6) by (simp only: best_tracked_def)
  from train_batches_summary[OF tb, of bv pre] obtain evs1 where
    h1: "same_setup ?s3 s4" "iteration ?s3 \<noteq> None \<longrightarrow> iteration s4 \<noteq> None"
        "exhausted ?s3 a \<longrightarrow> exhausted s4 a"
        "best_tracked bv pre ?s3 \<longrightarrow> best_tracked bv pre s4"
        "trace s4 = trace ?s3 @ evs1"
        "exhausted ?s3 a \<and> 0 < num_val_batches cfg \<longrightarrow> recovering evs1"
    by blast
  from epoch_end_effect[OF ee] obtain evs2 where
    h2: "same_setup s4 s'" "same_books s4 s'" "iteration s' = iteration s4"
        "iters s' = iters s4" "next_iter s' = next_iter s4"
        "trace s' = trace s4 @ evs2" "ModelEval \<notin> set evs2"
    by blast
  have tr: "trace s' = trace s @ (evs0 @ evs1 @ evs2)"
    using p(1) h1(5) h2(6) by simp
  have "exhausted s a \<and> 0 < num_val_batches cfg \<longrightarrow> recovering (evs0 @ evs1 @ evs2)"
    using h1(6) ex3 recovering_no_eval[OF p(2)] recovering_no_eval[OF h2(7)]
      recovering_append by blast
  with tr have E: "\<exists>evs. trace s' = trace s @ evs \<and>
        (exhausted s a \<and> 0 < num_val_batches cfg \<longrightarrow> recovering evs)" by blast
  have "same_setup s s'"
    using f(1) h1(1) h2(1) same_setup_trans by blast
  moreover have "iteration s \<noteq> None \<longrightarrow> iteration s' \<noteq> None"
    using f(2) h1(2) h2(3) by simp
  moreover have "exhausted s a \<longrightarrow> exhausted s' a"
    using ex3 h1(3) h2(4,5) by (simp add: exhausted_def)
  moreover have "best_tracked bv pre s \<longrightarrow> best_tracked bv pre s'"
    using bt3 h1(4) h2(2) best_tracked_same_books by blast
  ultimately show ?thesis using E by blast
qed

lemma train_epochs_summary:
  "train_epochs lib cfg a s eps = Inr s' \<Longrightarrow>
     same_setup s s' \<and>
     (iteration s \<noteq> None \<longrightarrow> iteration s' \<noteq> None) \<and>
     (exhausted s a \<longrightarrow> exhausted s' a) \<and>
     (best_tracked bv pre s \<longrightarrow> best_tracked bv pre s') \<and>
     (\<exists>evs. trace s' = trace s @ evs \<and>
        (exhausted s a \<and> 0 < num_val_batches cfg \<longrightarrow> recovering evs))"
proof (induction eps arbitrary: s)
  case Nil
  then have "s' = s" by simp
  then show ?case using recovering_Nil by (auto simp: same_setup_refl)
next
  case (Cons ep eps)
  from Cons.prems obtain s1 where
    e: "train_epoch lib cfg a s ep = Inr s1" and
    r: "train_epochs lib cfg a s1 eps = Inr s'"
    by (auto simp: thenE_Inr_iff)
  from train_epoch_summary[OF e, of bv pre] obtain evs1 where
    h1: "same_setup s s1" "iteration s \<noteq> None \<longrightarrow> iteration s1 \<noteq> None"
        "exhausted s a \<longrightarrow> exhausted s1 a"
        "best_tracked bv pre s \<longrightarrow> best_tracked bv pre s1"
        "trace s1 = trace s @ evs1"
        "exhausted s a \<and> 0 < num_val_batches cfg \<longrightarrow> recovering evs1"
    by blast
  from Cons.IH[OF r] obtain evs2 where
    h2: "same_setup s1 s'" "iteration s1 \<noteq> None \<longrightarrow> iteration s' \<noteq> None"
        "exhausted s1 a \<longrightarrow> exhausted s' a"
        "best_tracked bv pre s1 \<longrightarrow> best_tracked bv pre s'"
        "trace s' = trace s1 @ evs2"
        "exhausted s1 a \<and> 0 < num_val_batches cfg \<longrightarrow> recovering evs2"
    by blast
  have tr: "trace s' = trace s @ (evs1 @ evs2)" using h1(5) h2(5) by simp
  have "exhausted s a \<and> 0 < num_val_batches cfg \<longrightarrow> recovering (evs1 @ evs2)"
    using h1(3,6) h2(6) recovering_append by blast
  with tr have E: "\<exists>evs. trace s' = trace s @ evs \<and>
        (exhausted s a \<and> 0 < num_val_batches cfg \<longrightarrow> recovering evs)" by blast
  have "same_setup s s'" using h1(1) h2(1) by (rule same_setup_trans)
  moreover have "iteration s \<noteq> None \<longrightarrow> iteration s' \<noteq> None" using h1(2) h2(2) by blast
  moreover have "exhausted s a \<longrightarrow> exhausted s' a" using h1(3) h2(3) by blast
  moreover have "best_tracked bv pre s \<longrightarrow> best_tracked bv pre s'" using h1(4) h2(4) by blast
  ultimately show ?case using E by blast
qed

lemma train_start_effect:
  assumes "train_start s = Inr (a, s1)"
  shows "a = next_iter s \<and> iters s1 a = data_loaders s ''validation'' \<and> next_iter s1 = a + 1 \<and>
         iteration s1 = Some 0 \<and> best_validation_loss s1 = 10 ^ 10 \<and> epoch s1 = 0 \<and>
         val_log s1 = val_log s \<and> same_setup s s1 \<and>
         (\<exists>evs. trace s1 = trace s @ evs \<and> ModelEval \<notin> set evs \<and>
            saves_in evs = [] \<and> val_forwards evs = [])"
proof -
  let ?s0 = "(if rank s = 0 then emit (Print ''Training... Validation Interval'') s else s)"
  let ?s2 = "(emit ModelTrain (?s0\<lparr>training := True\<rparr>))\<lparr>epoch := 0, iteration := Some 0, step := 0,
               best_validation_loss := 10 ^ 10\<rparr>"
  from assms have pi: "py_iter ?s2 ''validation'' = Inr (a, s1)"
    by (simp add: train_start_def Let_def)
  from py_iter_effect[OF pi] obtain items where
    i: "data_loaders ?s2 ''validation'' = Some items" "a = next_iter ?s2"
       "s1 = ?s2\<lparr>iters := (iters ?s2)(a \<mapsto> items), next_iter := a + 1,
                  trace := trace ?s2 @ [NewIterator ''validation'' a]\<rparr>"
    by blast
  show ?thesis
  proof (cases "rank s = 0")
    case True
    have "trace s1 = trace s @ [Print ''Training... Validation Interval'', ModelTrain,
                                NewIterator ''validation'' a]"
      using i(3) True by (simp add: emit_def)
    then have "\<exists>evs. trace s1 = trace s @ evs \<and> ModelEval \<notin> set evs \<and>
            saves_in evs = [] \<and> val_forwards evs = []"
      by (intro exI[of _ "[Print ''Training... Validation Interval'', ModelTrain,
                                NewIterator ''validation'' a]"]) simp
    moreover have "a = next_iter s \<and> iters s1 a = data_loaders s ''validation'' \<and> next_iter s1 = a + 1 \<and>
         iteration s1 = Some 0 \<and> best_validation_loss s1 = 10 ^ 10 \<and> epoch s1 = 0 \<and>
         val_log s1 = val_log s \<and> same_setup s s1"
      using i True by (simp add: emit_def same_setup_def)
    ultimately show ?thesis by blast
  next
    case False
    have "trace s1 = trace s @ [ModelTrain, NewIterator ''validation'' a]"
      using i(3) False by (simp add: emit_def)
    then have "\<exists>evs. trace s1 = trace s @ evs \<and> ModelEval \<notin> set evs \<and>
            saves_in evs = [] \<and> val_forwards evs = []"
      by (intro exI[of _ "[ModelTrain, NewIterator ''validation'' a]"]) simp
    moreover have "a = next_iter s \<and> iters s1 a = data_loaders s ''validation'' \<and> next_iter s1 = a + 1 \<and>
         iteration s1 = Some 0 \<and> best_validation_loss s1 = 10 ^ 10 \<and> epoch s1 = 0 \<and>
         val_log s1 = val_log s \<and> same_setup s s1"
      using i False by (simp add: emit_def same_setup_def)
    ultimately show ?thesis by blast
  qed
qed

section \<open>The best validation loss\<close>



section \<open>Checkpoint contents and filenames\<close>

text \<open>
  C6. Every checkpoint \<open>save_state\<close> writes is one dict with exactly the keys
  \<open>state_dict\<close> (the model weights), \<open>optimizer\<close> (the optimizer state) and
  \<open>global_step\<close> (the iteration count), written to the dump path followed by the model
  class name, the suffix and \<open>.pth\<close>. The rank 0 part of \<open>validate\<close> saves with the
  suffix \<open>BEST\<close> when the loss is below the best so far, and with the empty suffix when
  checkpointing is on; the end of an epoch saves with \<open>_epoch_n\<close> for
  \<open>n = epoch + 1\<close> when \<open>save_interval\<close> is given and divides \<open>n\<close>.
\<close>

theorem checkpoint_contents_and_names:
  "(save_state s name = Inr (fn, s1) \<longrightarrow>
      fn = dirpath s @ model_name s @ name @ ''.pth'' \<and>
      (\<exists>ckpt. files s1 = (files s)(fn \<mapsto> ckpt) \<and>
         dom ckpt = {''state_dict'', ''optimizer'', ''global_step''} \<and>
         ckpt ''state_dict'' = Some (StateDict (weights s)) \<and>
         ckpt ''optimizer'' = map_option OptimizerState (optimizer s) \<and>
         ckpt ''global_step'' = map_option GlobalStep (iteration s)) \<and>
      saves_in (new_events s s1) = [fn]) \<and>
   (validate_rank0 s it gl ga chk = Inr s2 \<longrightarrow>
      saves_in (new_events s s2) =
        (if gl < best_validation_loss s then [dirpath s @ model_name s @ ''BEST'' @ ''.pth''] else []) @
        (if chk then [dirpath s @ model_name s @ ''.pth''] else [])) \<and>
   (epoch_end lib cfg s = Inr s3 \<longrightarrow>
      saves_in (new_events s s3) =
        (case save_interval cfg of
           None \<Rightarrow> []
         | Some k \<Rightarrow> if (epoch s + 1) mod k = 0
                     then [dirpath s @ model_name s @ ''_epoch_'' @ str_int (epoch s + 1) @ ''.pth'']
                     else []))"
proof (intro conjI impI)
  assume sv: "save_state s name = Inr (fn, s1)"
  then show "fn = dirpath s @ model_name s @ name @ ''.pth''"
    by (auto simp: save_state_Inr_iff save_filename_def)
  from sv obtain it opt where h: "iteration s = Some it" "optimizer s = Some opt"
      "files s1 = (files s)(fn \<mapsto> [''global_step'' \<mapsto> GlobalStep it,
                                   ''optimizer'' \<mapsto> OptimizerState opt,
                                   ''state_dict'' \<mapsto> StateDict (weights s)])"
    by (auto simp: save_state_Inr_iff)
  show "\<exists>ckpt. files s1 = (files s)(fn \<mapsto> ckpt) \<and>
         dom ckpt = {''state_dict'', ''optimizer'', ''global_step''} \<and>
         ckpt ''state_dict'' = Some (StateDict (weights s)) \<and>
         ckpt ''optimizer'' = map_option OptimizerState (optimizer s) \<and>
         ckpt ''global_step'' = map_option GlobalStep (iteration s)"
    by (rule exI[of _ "[''global_step'' \<mapsto> GlobalStep it, ''optimizer'' \<mapsto> OptimizerState opt,
                        ''state_dict'' \<mapsto> StateDict (weights s)]"]) (auto simp: h)
  from sv show "saves_in (new_events s s1) = [fn]"
    by (auto simp: save_state_Inr_iff new_events_def)
next
  assume "validate_rank0 s it gl ga chk = Inr s2"
  from validate_rank0_effect[OF this] obtain evs where
    "trace s2 = trace s @ evs"
    "saves_in evs =
              (if gl < best_validation_loss s then [save_filename s ''BEST''] else []) @
              (if chk then [save_filename s []] else [])"
    by blast
  then show "saves_in (new_events s s2) =
        (if gl < best_validation_loss s then [dirpath s @ model_name s @ ''BEST'' @ ''.pth''] else []) @
        (if chk then [dirpath s @ model_name s @ ''.pth''] else [])"
    by (simp add: new_events_def save_filename_def)
next
  assume "epoch_end lib cfg s = Inr s3"
  from epoch_end_effect[OF this] obtain evs where
    e: "trace s3 = trace s @ evs"
    "saves_in evs =
              (case save_interval cfg of
                 None \<Rightarrow> []
               | Some k \<Rightarrow> if (epoch s + 1) mod k = 0
                           then [save_filename s (''_epoch_'' @ str_int (epoch s + 1))]
                           else [])"
    by blast
  have "save_filename s (''_epoch_'' @ str_int (epoch s + 1)) =
        dirpath s @ model_name s @ ''_epoch_'' @ str_int (epoch s + 1) @ ''.pth''"
    by (simp add: save_filename_def)
  with e show "saves_in (new_events s s3) =
        (case save_interval cfg of
           None \<Rightarrow> []
         | Some k \<Rightarrow> if (epoch s + 1) mod k = 0
                     then [dirpath s @ model_name s @ ''_epoch_'' @ str_int (epoch s + 1) @ ''.pth'']
                     else [])"
    by (cases "save_interval cfg") (simp_all add: new_events_def)
qed

theorem checkpoint_contents_and_names_witness:
  "\<not> isl (save_state (ex_engine\<lparr>iteration := Some 3, epoch := 2\<rparr>) ''BEST'') \<and>
   fst (projr (save_state (ex_engine\<lparr>iteration := Some 3, epoch := 2\<rparr>) ''BEST'')) = ''out/ResNetBEST.pth'' \<and>
   saves_in (new_events (ex_engine\<lparr>iteration := Some 3, epoch := 2\<rparr>)
      (snd (projr (save_state (ex_engine\<lparr>iteration := Some 3, epoch := 2\<rparr>) ''BEST'')))) =
     [''out/ResNetBEST.pth''] \<and>
   \<not> isl (validate_rank0 (ex_engine\<lparr>iteration := Some 3, epoch := 2\<rparr>) 3 (1 / 2) 1 True) \<and>
   saves_in (new_events (ex_engine\<lparr>iteration := Some 3, epoch := 2\<rparr>)
      (projr (validate_rank0 (ex_engine\<lparr>iteration := Some 3, epoch := 2\<rparr>) 3 (1 / 2) 1 True))) =
     [''out/ResNetBEST.pth'', ''out/ResNet.pth''] \<and>
   \<not> isl (epoch_end toy_lib ex_cfg (ex_engine\<lparr>iteration := Some 3, epoch := 2\<rparr>)) \<and>
   saves_in (new_events (ex_engine\<lparr>iteration := Some 3, epoch := 2\<rparr>)
      (projr (epoch_end toy_lib ex_cfg (ex_engine\<lparr>iteration := Some 3, epoch := 2\<rparr>)))) =
     [''out/ResNet_epoch_3.pth'']"
proof -
  let ?s = "ex_engine\<lparr>iteration := Some 3, epoch := 2\<rparr>"
  let ?r1 = "save_state ?s ''BEST''"
  let ?r2 = "validate_rank0 ?s 3 (1 / 2) 1 True"
  let ?r3 = "epoch_end toy_lib ex_cfg ?s"
  have a: "\<not> isl ?r1" "\<not> isl ?r2" "\<not> isl ?r3" by code_simp+
  have f: "dirpath ?s = ''out/''" "model_name ?s = ''ResNet''" "best_validation_loss ?s = 10 ^ 10"
      "epoch ?s = 2" "save_interval ex_cfg = Some 1" "str_int 3 = ''3''"
    by code_simp+
  have r1: "?r1 = Inr (fst (projr ?r1), snd (projr ?r1))"
    using not_isl_projr[OF a(1)] by simp
  note th = checkpoint_contents_and_names[of ?s "''BEST''" "fst (projr ?r1)" "snd (projr ?r1)"
      3 "1 / 2" 1 True "projr ?r2" toy_lib ex_cfg "projr ?r3"]
  from th r1 have c1: "fst (projr ?r1) = dirpath ?s @ model_name ?s @ ''BEST'' @ ''.pth''"
      "saves_in (new_events ?s (snd (projr ?r1))) = [fst (projr ?r1)]"
    by blast+
  from th not_isl_projr[OF a(2)] have c2: "saves_in (new_events ?s (projr ?r2)) =
        (if 1 / 2 < best_validation_loss ?s then [dirpath ?s @ model_name ?s @ ''BEST'' @ ''.pth''] else []) @
        (if True then [dirpath ?s @ model_name ?s @ ''.pth''] else [])"
    by blast
  from th not_isl_projr[OF a(3)] have c3: "saves_in (new_events ?s (projr ?r3)) =
        (case save_interval ex_cfg of
           None \<Rightarrow> []
         | Some k \<Rightarrow> if (epoch ?s + 1) mod k = 0
                     then [dirpath ?s @ model_name ?s @ ''_epoch_'' @ str_int (epoch ?s + 1) @ ''.pth'']
                     else [])"
    by blast
  have d1: "fst (projr ?r1) = ''out/ResNetBEST.pth''" using c1(1) f(1,2) by simp
  have d2: "saves_in (new_events ?s (snd (projr ?r1))) = [''out/ResNetBEST.pth'']"
    using c1(2) d1 by simp
  have d3: "saves_in (new_events ?s (projr ?r2)) = [''out/ResNetBEST.pth'', ''out/ResNet.pth'']"
    using c2 f(1,2,3) by simp
  have d4: "saves_in (new_events ?s (projr ?r3)) = [''out/ResNet_epoch_3.pth'']"
    using c3 f(1,2,4,5,6) by simp
  from a d1 d2 d3 d4 show ?thesis by blast
qed

section \<open>Validation on a fixed interval\<close>



section \<open>The one exception the engine recovers from\<close>



section \<open>The validation iterator of a training run\<close>

text \<open>
  C10. \<open>train\<close> makes its validation iterator once, at a fresh address, before the loop
  over the epochs, and hands that address to the whole loop. \<open>validate\<close> returns no
  iterator: a replacement it makes lives at a new address and only under its own local
  name. So when the iterator of \<open>train\<close> is exhausted, a \<open>validate\<close> call that fetches
  a batch starts with the recovery branch and leaves that iterator exhausted, every step of
  the loop over the epochs leaves it exhausted, and in the trace of the rest of the run
  every switch to evaluation mode is followed at once by the message of the recovery
  branch.
\<close>

theorem exhausted_iterator_stays_with_train:
  "(train_start s0 = Inr (a, s1) \<longrightarrow>
      a = next_iter s0 \<and> iters s1 a = data_loaders s0 ''validation'' \<and>
      train lib s0 cfg = train_epochs lib cfg a s1 (map int [0..<nat (epochs cfg)])) \<and>
   (exhausted s a \<and> validate lib s a n chk = Inr s' \<longrightarrow>
      exhausted s' a \<and>
      (0 < n \<longrightarrow> take 2 (new_events s s') =
                     [ModelEval, Print ''Fetching new validation iterator...''])) \<and>
   (exhausted s a \<and> train_epochs lib cfg a s eps = Inr s2 \<longrightarrow>
      exhausted s2 a \<and> (0 < num_val_batches cfg \<longrightarrow> evals_recover (new_events s s2)))"
proof (intro conjI impI)
  assume st: "train_start s0 = Inr (a, s1)"
  from train_start_effect[OF st]
  show "a = next_iter s0" and "iters s1 a = data_loaders s0 ''validation''" by blast+
  from st show "train lib s0 cfg = train_epochs lib cfg a s1 (map int [0..<nat (epochs cfg)])"
    by (simp add: train_def thenE_def)
next
  assume h: "exhausted s a \<and> validate lib s a n chk = Inr s'"
  then have ex: "exhausted s a" and vv: "validate lib s a n chk = Inr s'" by simp_all
  from validate_summary[OF vv, of a] obtain evs where
    e: "exhausted s a \<longrightarrow> exhausted s' a" "trace s' = trace s @ ModelEval # evs"
       "0 < n \<and> py_next s a = Inl StopIteration \<longrightarrow>
               take 1 evs = [Print ''Fetching new validation iterator...'']"
    by blast
  from e(1) ex show "exhausted s' a" by simp
  show "take 2 (new_events s s') = [ModelEval, Print ''Fetching new validation iterator...'']"
    if "0 < n"
  proof -
    from e(3) that py_next_exhausted[OF ex]
    have "take 1 evs = [Print ''Fetching new validation iterator...'']" by simp
    then obtain r where "evs = Print ''Fetching new validation iterator...'' # r"
      by (cases evs) auto
    with e(2) show ?thesis by (simp add: new_events_def)
  qed
next
  assume h: "exhausted s a \<and> train_epochs lib cfg a s eps = Inr s2"
  then have ex: "exhausted s a" and te: "train_epochs lib cfg a s eps = Inr s2" by simp_all
  from train_epochs_summary[OF te] obtain evs where
    e: "exhausted s a \<longrightarrow> exhausted s2 a" "trace s2 = trace s @ evs"
       "exhausted s a \<and> 0 < num_val_batches cfg \<longrightarrow> recovering evs"
    by blast
  from e(1) ex show "exhausted s2 a" by simp
  from e(2) have "new_events s s2 = evs" by (simp add: new_events_def)
  with e(3) ex show "evals_recover (new_events s s2)" if "0 < num_val_batches cfg"
    using that by (simp add: recovering_def)
qed

theorem exhausted_iterator_stays_with_train_witness:
  "\<not> isl (train_start ex_engine) \<and>
   fst (projr (train_start ex_engine)) = next_iter ex_engine \<and>
   exhausted ex_exhausted 0 \<and>
   \<not> isl (validate toy_lib ex_exhausted 0 1 True) \<and>
   exhausted (projr (validate toy_lib ex_exhausted 0 1 True)) 0 \<and>
   take 2 (new_events ex_exhausted (projr (validate toy_lib ex_exhausted 0 1 True))) =
     [ModelEval, Print ''Fetching new validation iterator...''] \<and>
   \<not> isl (train_epochs toy_lib ex_cfg 0 ex_exhausted [0]) \<and>
   exhausted (projr (train_epochs toy_lib ex_cfg 0 ex_exhausted [0])) 0 \<and>
   evals_recover (new_events ex_exhausted (projr (train_epochs toy_lib ex_cfg 0 ex_exhausted [0])))"
proof -
  let ?r1 = "train_start ex_engine"
  let ?r2 = "validate toy_lib ex_exhausted 0 1 True"
  let ?r3 = "train_epochs toy_lib ex_cfg 0 ex_exhausted [0]"
  have a: "\<not> isl ?r1" "\<not> isl ?r2" "\<not> isl ?r3" by code_simp+
  have ex: "exhausted ex_exhausted 0" by code_simp
  have n: "0 < num_val_batches ex_cfg" by code_simp
  have r1: "?r1 = Inr (fst (projr ?r1), snd (projr ?r1))"
    using not_isl_projr[OF a(1)] by simp
  note t1 = exhausted_iterator_stays_with_train[of ex_engine "fst (projr ?r1)" "snd (projr ?r1)",
      THEN conjunct1, THEN mp, OF r1, THEN conjunct1]
  have h2: "exhausted ex_exhausted 0 \<and> ?r2 = Inr (projr ?r2)"
    using ex not_isl_projr[OF a(2)] by simp
  note t2 = exhausted_iterator_stays_with_train[of _ 0 _ toy_lib _ ex_exhausted 1 True "projr ?r2",
      THEN conjunct2, THEN conjunct1, THEN mp, OF h2]
  have h3: "exhausted ex_exhausted 0 \<and> ?r3 = Inr (projr ?r3)"
    using ex not_isl_projr[OF a(3)] by simp
  note t3 = exhausted_iterator_stays_with_train[of _ 0 _ toy_lib ex_cfg ex_exhausted _ _ _ "[0]" "projr ?r3",
      THEN conjunct2, THEN conjunct2, THEN mp, OF h3]
  from t2 have c2: "exhausted (projr ?r2) 0"
      "take 2 (new_events ex_exhausted (projr ?r2)) =
         [ModelEval, Print ''Fetching new validation iterator...'']"
    by simp_all
  from t3 n have c3: "exhausted (projr ?r3) 0" "evals_recover (new_events ex_exhausted (projr ?r3))"
    by simp_all
  from a t1 ex c2 c3 show ?thesis by (intro conjI)
qed

section \<open>The first validation of a training run\<close>

text \<open>
  C9, as the code has it. In a training run with \<open>val_interval >= 1\<close> whose first epoch
  has a first batch, nothing is validated, trained or saved before the \<open>validate\<close> call
  at iteration 0, and the training on the first batch comes after that call. On rank 0 this
  first validation saves the \<open>BEST\<close> checkpoint exactly when its global validation loss
  is strictly below \<open>1.0e10\<close>, the value the best loss has been reset to.
\<close>

theorem first_validation_and_best_save:
  "train_start s = Inr (a, s1) \<and> 0 < epochs cfg \<and>
   data_loaders s ''train'' = Some (Inr b # rest) \<and> 1 \<le> val_interval cfg \<longrightarrow>
     (\<exists>s3. iteration s3 = Some 0 \<and> best_validation_loss s3 = 10 ^ 10 \<and>
        ModelEval \<notin> set (new_events s s3) \<and> val_forwards (new_events s s3) = [] \<and>
        saves_in (new_events s s3) = [] \<and>
        train lib s cfg =
          thenE (thenE (validate lib s3 a (num_val_batches cfg) (checkpointing cfg))
                   (\<lambda>sv. train_on_batch lib cfg sv b))
            (\<lambda>s4. thenE (thenE (train_batches lib cfg a s4 1 rest) (epoch_end lib cfg))
                     (\<lambda>s5. train_epochs lib cfg a s5 (map int [1..<nat (epochs cfg)]))) \<and>
        (rank s = 0 \<longrightarrow>
           (\<forall>sv. validate lib s3 a (num_val_batches cfg) (checkpointing cfg) = Inr sv \<longrightarrow>
              (\<exists>row. val_log sv = val_log s3 @ [row] \<and> v_iteration row = 0 \<and>
                 (save_filename s ''BEST'' \<in> set (saves_in (new_events s3 sv)) \<longleftrightarrow>
                    v_loss row < 10 ^ 10)))))"
proof
  assume h: "train_start s = Inr (a, s1) \<and> 0 < epochs cfg \<and>
   data_loaders s ''train'' = Some (Inr b # rest) \<and> 1 \<le> val_interval cfg"
  then have st: "train_start s = Inr (a, s1)" and ep: "0 < epochs cfg"
    and tl: "data_loaders s ''train'' = Some (Inr b # rest)" and vi: "val_interval cfg \<noteq> 0"
    by auto
  from train_start_effect[OF st] obtain evs where
    e: "iteration s1 = Some 0" "best_validation_loss s1 = 10 ^ 10" "same_setup s s1"
       "trace s1 = trace s @ evs" "ModelEval \<notin> set evs" "saves_in evs = []"
       "val_forwards evs = []"
    by blast
  let ?p0 = "s1\<lparr>epoch := 0\<rparr>"
  let ?p1 = "(if rank ?p0 = 0 then emit (Print (''Epoch '' @ str_int (0 + 1) @ '' Starting'')) ?p0
                else ?p0)"
  let ?p2 = "?p1\<lparr>step := 0\<rparr>"
  let ?p3 = "(if is_distributed ?p2 then emit (SetEpoch 0) ?p2 else ?p2)"
  let ?s3 = "?p3\<lparr>step := 0\<rparr>"
  have dl: "data_loaders ?p1 ''train'' = Some (Inr b # rest)"
    using tl e(3) by (simp add: same_setup_def emit_def)
  have it3: "iteration ?p3 = Some 0"
    using e(1) by (simp add: emit_def)
  have eps: "map int [0..<nat (epochs cfg)] = 0 # map int [1..<nat (epochs cfg)]"
    using ep by (simp add: upt_conv_Cons)
  have tb: "train_batch lib cfg a ?p3 0 b =
            thenE (validate lib ?s3 a (num_val_batches cfg) (checkpointing cfg))
              (\<lambda>sv. train_on_batch lib cfg sv b)"
    unfolding train_batch_def Let_def using it3 vi by simp
  have te: "train_epoch lib cfg a s1 0 =
            thenE (thenE (train_batch lib cfg a ?p3 0 b)
                     (\<lambda>s'. train_batches lib cfg a s' 1 rest)) (epoch_end lib cfg)"
    unfolding train_epoch_def Let_def using dl by simp
  have tr: "train lib s cfg =
          thenE (thenE (validate lib ?s3 a (num_val_batches cfg) (checkpointing cfg))
                   (\<lambda>sv. train_on_batch lib cfg sv b))
            (\<lambda>s4. thenE (thenE (train_batches lib cfg a s4 1 rest) (epoch_end lib cfg))
                     (\<lambda>s5. train_epochs lib cfg a s5 (map int [1..<nat (epochs cfg)])))"
    unfolding train_def using st eps te tb
    by (simp add: thenE_Inr thenE_assoc)
  define s3 where "s3 = ?s3"
  have tr3: "train lib s cfg =
          thenE (thenE (validate lib s3 a (num_val_batches cfg) (checkpointing cfg))
                   (\<lambda>sv. train_on_batch lib cfg sv b))
            (\<lambda>s4. thenE (thenE (train_batches lib cfg a s4 1 rest) (epoch_end lib cfg))
                     (\<lambda>s5. train_epochs lib cfg a s5 (map int [1..<nat (epochs cfg)])))"
    unfolding s3_def by (rule tr)
  obtain evs3 where
    t3: "trace s3 = trace s @ evs3" "ModelEval \<notin> set evs3" "saves_in evs3 = []"
        "val_forwards evs3 = []"
    unfolding s3_def using e(4-7)
    by (cases "rank s1 = 0"; cases "is_distributed s1";
        simp add: emit_def saves_in_append val_forwards_append)
  have f3: "iteration s3 = Some 0" "best_validation_loss s3 = 10 ^ 10" "same_setup s s3"
    unfolding s3_def using e(1,2,3) by (simp_all add: emit_def same_setup_def)
  have ne3: "new_events s s3 = evs3" using t3(1) by (simp add: new_events_def)
  have m: "ModelEval \<notin> set (new_events s s3)" "val_forwards (new_events s s3) = []"
      "saves_in (new_events s s3) = []"
    using t3(2,3,4) ne3 by simp_all
  have r0: "rank s = 0 \<longrightarrow>
      (\<forall>sv. validate lib s3 a (num_val_batches cfg) (checkpointing cfg) = Inr sv \<longrightarrow>
              (\<exists>row. val_log sv = val_log s3 @ [row] \<and> v_iteration row = 0 \<and>
                 (save_filename s ''BEST'' \<in> set (saves_in (new_events s3 sv)) \<longleftrightarrow>
                    v_loss row < 10 ^ 10)))"
  proof (intro allI impI)
    fix sv
    assume r: "rank s = 0"
    assume vv: "validate lib s3 a (num_val_batches cfg) (checkpointing cfg) = Inr sv"
    have r3: "rank s3 = 0" using f3(3) r by (simp add: same_setup_def)
    from validate_summary[OF vv] r3 obtain row where
      row: "val_log sv = val_log s3 @ [row]" "v_iteration row = the (iteration s3)"
        "saves_in (new_events s3 sv) =
                 (if v_loss row < best_validation_loss s3 then [save_filename s3 ''BEST''] else []) @
                 (if checkpointing cfg then [save_filename s3 []] else [])"
      by blast
    have sf: "save_filename s3 x = save_filename s x" for x
      using f3(3) by (simp add: save_filename_def same_setup_def)
    have ne: "save_filename s ''BEST'' \<noteq> save_filename s []"
      by (simp add: save_filename_def)
    have "save_filename s ''BEST'' \<in> set (saves_in (new_events s3 sv)) \<longleftrightarrow> v_loss row < 10 ^ 10"
      using row(3) f3(2) sf ne by auto
    with row(1,2) f3(1)
    show "\<exists>row. val_log sv = val_log s3 @ [row] \<and> v_iteration row = 0 \<and>
                 (save_filename s ''BEST'' \<in> set (saves_in (new_events s3 sv)) \<longleftrightarrow>
                    v_loss row < 10 ^ 10)"
      by (intro exI[of _ row]) simp
  qed
  show "\<exists>s3. iteration s3 = Some 0 \<and> best_validation_loss s3 = 10 ^ 10 \<and>
        ModelEval \<notin> set (new_events s s3) \<and> val_forwards (new_events s s3) = [] \<and>
        saves_in (new_events s s3) = [] \<and>
        train lib s cfg =
          thenE (thenE (validate lib s3 a (num_val_batches cfg) (checkpointing cfg))
                   (\<lambda>sv. train_on_batch lib cfg sv b))
            (\<lambda>s4. thenE (thenE (train_batches lib cfg a s4 1 rest) (epoch_end lib cfg))
                     (\<lambda>s5. train_epochs lib cfg a s5 (map int [1..<nat (epochs cfg)]))) \<and>
        (rank s = 0 \<longrightarrow>
           (\<forall>sv. validate lib s3 a (num_val_batches cfg) (checkpointing cfg) = Inr sv \<longrightarrow>
              (\<exists>row. val_log sv = val_log s3 @ [row] \<and> v_iteration row = 0 \<and>
                 (save_filename s ''BEST'' \<in> set (saves_in (new_events s3 sv)) \<longleftrightarrow>
                    v_loss row < 10 ^ 10))))"
    by (rule exI[of _ s3], intro conjI, rule f3(1), rule f3(2), rule m(1), rule m(2),
        rule m(3), rule tr3, rule r0)
qed

theorem first_validation_and_best_save_witness:
  "\<not> isl (train_start ex_engine) \<and> 0 < epochs ex_cfg \<and>
   data_loaders ex_engine ''train'' = Some [Inr ex_batch, Inr ex_batch] \<and>
   1 \<le> val_interval ex_cfg \<and> rank ex_engine = 0 \<and>
   (\<exists>s3. iteration s3 = Some 0 \<and> best_validation_loss s3 = 10 ^ 10 \<and>
      train toy_lib ex_engine ex_cfg =
        thenE (thenE (validate toy_lib s3 (fst (projr (train_start ex_engine)))
                        (num_val_batches ex_cfg) (checkpointing ex_cfg))
                 (\<lambda>sv. train_on_batch toy_lib ex_cfg sv ex_batch))
          (\<lambda>s4. thenE (thenE (train_batches toy_lib ex_cfg (fst (projr (train_start ex_engine))) s4 1
                                [Inr ex_batch]) (epoch_end toy_lib ex_cfg))
                   (\<lambda>s5. train_epochs toy_lib ex_cfg (fst (projr (train_start ex_engine))) s5
                           (map int [1..<nat (epochs ex_cfg)]))))"
proof -
  let ?r = "train_start ex_engine"
  have a: "\<not> isl ?r" "0 < epochs ex_cfg"
     "data_loaders ex_engine ''train'' = Some (Inr ex_batch # [Inr ex_batch])"
     "1 \<le> val_interval ex_cfg" "rank ex_engine = 0"
    by code_simp+
  have r: "?r = Inr (fst (projr ?r), snd (projr ?r))"
    using not_isl_projr[OF a(1)] by simp
  have h: "?r = Inr (fst (projr ?r), snd (projr ?r)) \<and> 0 < epochs ex_cfg \<and>
     data_loaders ex_engine ''train'' = Some (Inr ex_batch # [Inr ex_batch]) \<and>
     1 \<le> val_interval ex_cfg"
    using r a(2,3,4) by (intro conjI)
  from first_validation_and_best_save[of ex_engine "fst (projr ?r)" "snd (projr ?r)" ex_cfg
      ex_batch "[Inr ex_batch]" toy_lib, THEN mp, OF h]
  obtain s3 where
    s3: "iteration s3 = Some 0 \<and> best_validation_loss s3 = 10 ^ 10 \<and>
        ModelEval \<notin> set (new_events ex_engine s3) \<and> val_forwards (new_events ex_engine s3) = [] \<and>
        saves_in (new_events ex_engine s3) = [] \<and>
        train toy_lib ex_engine ex_cfg =
          thenE (thenE (validate toy_lib s3 (fst (projr ?r)) (num_val_batches ex_cfg) (checkpointing ex_cfg))
                   (\<lambda>sv. train_on_batch toy_lib ex_cfg sv ex_batch))
            (\<lambda>s4. thenE (thenE (train_batches toy_lib ex_cfg (fst (projr ?r)) s4 1 [Inr ex_batch])
                            (epoch_end toy_lib ex_cfg))
                     (\<lambda>s5. train_epochs toy_lib ex_cfg (fst (projr ?r)) s5
                         (map int [1..<nat (epochs ex_cfg)]))) \<and>
        (rank ex_engine = 0 \<longrightarrow>
           (\<forall>sv. validate toy_lib s3 (fst (projr ?r)) (num_val_batches ex_cfg) (checkpointing ex_cfg) = Inr sv \<longrightarrow>
              (\<exists>row. val_log sv = val_log s3 @ [row] \<and> v_iteration row = 0 \<and>
                 (save_filename ex_engine ''BEST'' \<in> set (saves_in (new_events s3 sv)) \<longleftrightarrow>
                    v_loss row < 10 ^ 10))))"
    by (elim exE)
  then have "iteration s3 = Some 0 \<and> best_validation_loss s3 = 10 ^ 10 \<and>
      train toy_lib ex_engine ex_cfg =
        thenE (thenE (validate toy_lib s3 (fst (projr ?r)) (num_val_batches ex_cfg) (checkpointing ex_cfg))
                 (\<lambda>sv. train_on_batch toy_lib ex_cfg sv ex_batch))
          (\<lambda>s4. thenE (thenE (train_batches toy_lib ex_cfg (fst (projr ?r)) s4 1 [Inr ex_batch])
                          (epoch_end toy_lib ex_cfg))
                   (\<lambda>s5. train_epochs toy_lib ex_cfg (fst (projr ?r)) s5
                       (map int [1..<nat (epochs ex_cfg)])))"
    by (elim conjE) (intro conjI; assumption)
  then have e: "\<exists>s3. iteration s3 = Some 0 \<and> best_validation_loss s3 = 10 ^ 10 \<and>
      train toy_lib ex_engine ex_cfg =
        thenE (thenE (validate toy_lib s3 (fst (projr ?r)) (num_val_batches ex_cfg) (checkpointing ex_cfg))
                 (\<lambda>sv. train_on_batch toy_lib ex_cfg sv ex_batch))
          (\<lambda>s4. thenE (thenE (train_batches toy_lib ex_cfg (fst (projr ?r)) s4 1 [Inr ex_batch])
                          (epoch_end toy_lib ex_cfg))
                   (\<lambda>s5. train_epochs toy_lib ex_cfg (fst (projr ?r)) s5
                       (map int [1..<nat (epochs ex_cfg)])))"
    by (rule exI)
  have a3: "data_loaders ex_engine ''train'' = Some [Inr ex_batch, Inr ex_batch]" by (rule a(3))
  from a(1) a(2) a3 a(4) a(5) e show ?thesis by (intro conjI)
qed

text \<open>
  The claim as it was stated, that this first validation always saves the \<open>BEST\<close>
  checkpoint, fails for a model whose validation loss is \<open>2.0e10\<close>: the run validates
  at iterations 0 and 1, both rows have \<open>saved_best = 0\<close>, and the only checkpoints saved
  are the latest-model ones and the periodic one.
\<close>

theorem first_validation_without_best_save:
  "1 \<le> val_interval ex_cfg \<and> rank ex_engine = 0 \<and>
   \<not> isl (train diverged_lib ex_engine ex_cfg) \<and>
   map v_iteration (val_log (projr (train diverged_lib ex_engine ex_cfg))) = [0, 1] \<and>
   map v_loss (val_log (projr (train diverged_lib ex_engine ex_cfg))) = [2 * 10 ^ 10, 2 * 10 ^ 10] \<and>
   map v_saved_best (val_log (projr (train diverged_lib ex_engine ex_cfg))) = [0, 0] \<and>
   saves_in (trace (projr (train diverged_lib ex_engine ex_cfg))) =
     [''out/ResNet.pth'', ''out/ResNet.pth'', ''out/ResNet_epoch_1.pth'']"
  by code_simp

section \<open>The attribution routines\<close>

lemma length_foldl_map2:
  "\<forall>r \<in> set rows. length r = c \<Longrightarrow> length acc = c \<Longrightarrow>
     length (foldl (\<lambda>acc row. map2 (+) acc row) acc rows) = c"
  by (induction rows arbitrary: acc) simp_all

lemma length_sum0:
  "t \<noteq> [] \<Longrightarrow> \<forall>r \<in> set t. length r = c \<Longrightarrow> length (sum0 t) = c"
  by (cases t) (simp_all add: sum0_def length_foldl_map2)

lemma length_concat_sum0:
  "\<forall>att \<in> set atts. att \<noteq> [] \<and> (\<forall>x \<in> set att. length x = c) \<Longrightarrow>
     length (concat (map sum0 atts)) = length atts * c"
  by (induction atts) (simp_all add: length_sum0)

lemma concat_replicate_single: "concat (replicate n [x]) = replicate n x"
  by (induction n) simp_all

lemma epsilonAlpha2Beta1_loop_effect:
  "epsilonAlpha2Beta1_loop lib cls s d tout trel = Inr (out, rel, s') \<Longrightarrow>
     (\<exists>atts. length atts = length cls \<and>
        (\<forall>k < length cls. \<exists>outp.
           attributor lib EpsilonAlpha2Beta1 (weights s) d (replicate (length d) (eye4_row (cls ! k)))
             = Inr (outp, atts ! k)) \<and>
        rel = trel @ concat (map sum0 atts)) \<and>
     trace s' = trace s @
       concat (map (\<lambda>i. [GradientCall (replicate (length d) (eye4_row i)), Print ''data.shape'']) cls)"
proof (induction cls arbitrary: s tout trel)
  case Nil
  then show ?case by simp
next
  case (Cons i cls)
  let ?target = "replicate (length d) (eye4_row i)"
  from Cons.prems obtain outp0 attribution where
    at: "attributor lib EpsilonAlpha2Beta1 (weights s) d ?target = Inr (outp0, attribution)"
    by (auto simp: Let_def concat_replicate_single split: sum.splits)
  let ?s1 = "emit (Print ''data.shape'') (emit (GradientCall ?target) s)"
  from Cons.prems at have
    r: "epsilonAlpha2Beta1_loop lib cls ?s1 d (tout @ outp0) (trel @ sum0 attribution) = Inr (out, rel, s')"
    by (simp add: Let_def concat_replicate_single)
  have w1: "weights ?s1 = weights s" "trace ?s1 = trace s @ [GradientCall ?target, Print ''data.shape'']"
    by (simp_all add: emit_def)
  from Cons.IH[OF r] obtain atts where
    ih: "length atts = length cls"
        "\<forall>k < length cls. \<exists>outp.
           attributor lib EpsilonAlpha2Beta1 (weights ?s1) d (replicate (length d) (eye4_row (cls ! k)))
             = Inr (outp, atts ! k)"
        "rel = (trel @ sum0 attribution) @ concat (map sum0 atts)"
        "trace s' = trace ?s1 @
           concat (map (\<lambda>i. [GradientCall (replicate (length d) (eye4_row i)), Print ''data.shape'']) cls)"
    by blast
  have A: "\<forall>k < length (i # cls). \<exists>outp.
           attributor lib EpsilonAlpha2Beta1 (weights s) d (replicate (length d) (eye4_row ((i # cls) ! k)))
             = Inr (outp, (attribution # atts) ! k)"
  proof (intro allI impI)
    fix k assume "k < length (i # cls)"
    then show "\<exists>outp. attributor lib EpsilonAlpha2Beta1 (weights s) d
             (replicate (length d) (eye4_row ((i # cls) ! k))) = Inr (outp, (attribution # atts) ! k)"
      using at ih(2) w1(1) by (cases k) auto
  qed
  have B: "rel = trel @ concat (map sum0 (attribution # atts))" using ih(3) by simp
  have C: "length (attribution # atts) = length (i # cls)" using ih(1) by simp
  have D: "trace s' = trace s @
       concat (map (\<lambda>i. [GradientCall (replicate (length d) (eye4_row i)), Print ''data.shape'']) (i # cls))"
    using ih(4) w1(2) by simp
  from A B C D show ?case by blast
qed

lemma epsilonPlusFlat_loop_effect:
  "epsilonPlusFlat_loop lib cls s d tout trel = Inr (out, rel, s') \<Longrightarrow>
     (\<exists>atts. length atts = length cls \<and>
        (\<forall>k < length cls. \<exists>outp.
           attributor lib EpsilonPlusFlat (weights s) d [eye4_row (cls ! k)] = Inr (outp, atts ! k)) \<and>
        rel = trel @ concat (map sum0 atts)) \<and>
     trace s' = trace s @ map (\<lambda>i. GradientCall [eye4_row i]) cls"
proof (induction cls arbitrary: s tout trel)
  case Nil
  then show ?case by simp
next
  case (Cons i cls)
  let ?target = "[eye4_row i]"
  from Cons.prems obtain outp0 attribution where
    at: "attributor lib EpsilonPlusFlat (weights s) d ?target = Inr (outp0, attribution)"
    by (auto simp: Let_def split: sum.splits)
  let ?s1 = "emit (GradientCall ?target) s"
  from Cons.prems at have
    r: "epsilonPlusFlat_loop lib cls ?s1 d (tout @ outp0) (trel @ sum0 attribution) = Inr (out, rel, s')"
    by (simp add: Let_def)
  have w1: "weights ?s1 = weights s" "trace ?s1 = trace s @ [GradientCall ?target]"
    by (simp_all add: emit_def)
  from Cons.IH[OF r] obtain atts where
    ih: "length atts = length cls"
        "\<forall>k < length cls. \<exists>outp.
           attributor lib EpsilonPlusFlat (weights ?s1) d [eye4_row (cls ! k)] = Inr (outp, atts ! k)"
        "rel = (trel @ sum0 attribution) @ concat (map sum0 atts)"
        "trace s' = trace ?s1 @ map (\<lambda>i. GradientCall [eye4_row i]) cls"
    by blast
  have A: "\<forall>k < length (i # cls). \<exists>outp.
           attributor lib EpsilonPlusFlat (weights s) d [eye4_row ((i # cls) ! k)]
             = Inr (outp, (attribution # atts) ! k)"
  proof (intro allI impI)
    fix k assume "k < length (i # cls)"
    then show "\<exists>outp. attributor lib EpsilonPlusFlat (weights s) d [eye4_row ((i # cls) ! k)]
                 = Inr (outp, (attribution # atts) ! k)"
      using at ih(2) w1(1) by (cases k) auto
  qed
  have B: "rel = trel @ concat (map sum0 (attribution # atts))" using ih(3) by simp
  have C: "length (attribution # atts) = length (i # cls)" using ih(1) by simp
  have D: "trace s' = trace s @ map (\<lambda>i. GradientCall [eye4_row i]) (i # cls)"
    using ih(4) w1(2) by simp
  from A B C D show ?case by blast
qed

text \<open>
  C8, as the code has it. Both attribution routines make four class-targeted attributions
  over the batch, and from each they keep \<open>attribution.sum(0)\<close>: the attribution summed
  over the batch axis. The returned relevance is the concatenation of these four sums, so
  it holds one score per element position and class, shared by all inputs of the batch:
  when every attribution is a non-empty batch of inputs with \<open>c\<close> elements each, the
  relevance has \<open>4 * c\<close> entries, whatever the batch size.
\<close>

theorem relevance_is_summed_over_the_batch:
  "(epsilonAlpha2Beta1 lib s d = Inr (out, rel, s') \<longrightarrow>
      (\<exists>atts. length atts = 4 \<and>
         (\<forall>k < 4. \<exists>outp.
            attributor lib EpsilonAlpha2Beta1 (weights s) d (replicate (length d) (eye4_row k))
              = Inr (outp, atts ! k)) \<and>
         rel = concat (map sum0 atts) \<and>
         (\<forall>c. (\<forall>att \<in> set atts. att \<noteq> [] \<and> (\<forall>x \<in> set att. length x = c)) \<longrightarrow>
              length rel = 4 * c))) \<and>
   (epsilonPlusFlat lib s d = Inr (out2, rel2, s2) \<longrightarrow>
      (\<exists>atts. length atts = 4 \<and>
         (\<forall>k < 4. \<exists>outp.
            attributor lib EpsilonPlusFlat (weights s) d [eye4_row k] = Inr (outp, atts ! k)) \<and>
         rel2 = concat (map sum0 atts) \<and>
         (\<forall>c. (\<forall>att \<in> set atts. att \<noteq> [] \<and> (\<forall>x \<in> set att. length x = c)) \<longrightarrow>
              length rel2 = 4 * c)))"
proof (intro conjI impI)
  assume "epsilonAlpha2Beta1 lib s d = Inr (out, rel, s')"
  then have l: "epsilonAlpha2Beta1_loop lib [0..<4] s d [] [] = Inr (out, rel, s')"
    by (simp add: epsilonAlpha2Beta1_def)
  from epsilonAlpha2Beta1_loop_effect[OF l] obtain atts where
    a: "length atts = 4"
       "\<forall>k < length [0..<4]. \<exists>outp.
           attributor lib EpsilonAlpha2Beta1 (weights s) d (replicate (length d) (eye4_row ([0..<4] ! k)))
             = Inr (outp, atts ! k)"
       "rel = concat (map sum0 atts)"
    by auto
  have b: "\<forall>k < 4. \<exists>outp.
            attributor lib EpsilonAlpha2Beta1 (weights s) d (replicate (length d) (eye4_row k))
              = Inr (outp, atts ! k)"
  proof (intro allI impI)
    fix k :: nat assume k: "k < 4"
    then have "[0..<4] ! k = k" by simp
    with a(2) k show "\<exists>outp. attributor lib EpsilonAlpha2Beta1 (weights s) d
              (replicate (length d) (eye4_row k)) = Inr (outp, atts ! k)"
      by (metis length_upt minus_nat.diff_0)
  qed
  have c: "\<forall>c. (\<forall>att \<in> set atts. att \<noteq> [] \<and> (\<forall>x \<in> set att. length x = c)) \<longrightarrow>
              length rel = 4 * c"
    using a(1,3) length_concat_sum0[of atts] by simp
  from a(1) b a(3) c
  show "\<exists>atts. length atts = 4 \<and>
         (\<forall>k < 4. \<exists>outp.
            attributor lib EpsilonAlpha2Beta1 (weights s) d (replicate (length d) (eye4_row k))
              = Inr (outp, atts ! k)) \<and>
         rel = concat (map sum0 atts) \<and>
         (\<forall>c. (\<forall>att \<in> set atts. att \<noteq> [] \<and> (\<forall>x \<in> set att. length x = c)) \<longrightarrow>
              length rel = 4 * c)"
    by blast
next
  assume "epsilonPlusFlat lib s d = Inr (out2, rel2, s2)"
  then have l: "epsilonPlusFlat_loop lib [0..<4] s d [] [] = Inr (out2, rel2, s2)"
    by (simp add: epsilonPlusFlat_def)
  from epsilonPlusFlat_loop_effect[OF l] obtain atts where
    a: "length atts = 4"
       "\<forall>k < length [0..<4]. \<exists>outp.
           attributor lib EpsilonPlusFlat (weights s) d [eye4_row ([0..<4] ! k)] = Inr (outp, atts ! k)"
       "rel2 = concat (map sum0 atts)"
    by auto
  have b: "\<forall>k < 4. \<exists>outp.
            attributor lib EpsilonPlusFlat (weights s) d [eye4_row k] = Inr (outp, atts ! k)"
  proof (intro allI impI)
    fix k :: nat assume k: "k < 4"
    then have "[0..<4] ! k = k" by simp
    with a(2) k show "\<exists>outp. attributor lib EpsilonPlusFlat (weights s) d [eye4_row k]
                         = Inr (outp, atts ! k)"
      by (metis length_upt minus_nat.diff_0)
  qed
  have c: "\<forall>c. (\<forall>att \<in> set atts. att \<noteq> [] \<and> (\<forall>x \<in> set att. length x = c)) \<longrightarrow>
              length rel2 = 4 * c"
    using a(1,3) length_concat_sum0[of atts] by simp
  from a(1) b a(3) c
  show "\<exists>atts. length atts = 4 \<and>
         (\<forall>k < 4. \<exists>outp.
            attributor lib EpsilonPlusFlat (weights s) d [eye4_row k] = Inr (outp, atts ! k)) \<and>
         rel2 = concat (map sum0 atts) \<and>
         (\<forall>c. (\<forall>att \<in> set atts. att \<noteq> [] \<and> (\<forall>x \<in> set att. length x = c)) \<longrightarrow>
              length rel2 = 4 * c)"
    by blast
qed

theorem relevance_is_summed_over_the_batch_witness:
  "\<not> isl (epsilonAlpha2Beta1 toy_lib ex_engine [[1], [2]]) \<and>
   length (fst (snd (projr (epsilonAlpha2Beta1 toy_lib ex_engine [[1], [2]])))) = 4 \<and>
   \<not> isl (epsilonPlusFlat toy_lib ex_engine [[1], [2]]) \<and>
   length (fst (snd (projr (epsilonPlusFlat toy_lib ex_engine [[1], [2]])))) = 4"
proof -
  let ?d = "[[1], [2]] :: real list list"
  let ?r1 = "epsilonAlpha2Beta1 toy_lib ex_engine ?d"
  let ?r2 = "epsilonPlusFlat toy_lib ex_engine ?d"
  have a: "\<not> isl ?r1" "\<not> isl ?r2" by code_simp+
  have r1: "?r1 = Inr (fst (projr ?r1), fst (snd (projr ?r1)), snd (snd (projr ?r1)))"
    using not_isl_projr[OF a(1)] by simp
  have r2: "?r2 = Inr (fst (projr ?r2), fst (snd (projr ?r2)), snd (snd (projr ?r2)))"
    using not_isl_projr[OF a(2)] by simp
  have at: "attributor toy_lib c w d t = Inr (t, d)" for c w and d :: "real list list" and t
    by (simp add: toy_lib_def)
  from relevance_is_summed_over_the_batch[where lib = toy_lib and s = ex_engine and d = ?d
      and out = "fst (projr ?r1)" and rel = "fst (snd (projr ?r1))" and s' = "snd (snd (projr ?r1))"
      and ?out2.0 = "fst (projr ?r2)" and ?rel2.0 = "fst (snd (projr ?r2))" and ?s2.0 = "snd (snd (projr ?r2))", THEN conjunct1, THEN mp, OF r1]
  obtain atts where
    p: "length atts = 4 \<and>
         (\<forall>k < 4. \<exists>outp.
            attributor toy_lib EpsilonAlpha2Beta1 (weights ex_engine) ?d (replicate (length ?d) (eye4_row k))
              = Inr (outp, atts ! k)) \<and>
         fst (snd (projr ?r1)) = concat (map sum0 atts) \<and>
         (\<forall>c. (\<forall>att \<in> set atts. att \<noteq> [] \<and> (\<forall>x \<in> set att. length x = c)) \<longrightarrow>
              length (fst (snd (projr ?r1))) = 4 * c)"
    by (elim exE)
  then have "\<forall>k < length atts. atts ! k = ?d" by (simp add: at)
  then have "\<forall>att \<in> set atts. att = ?d" by (auto simp: in_set_conv_nth)
  then have hc1: "\<forall>att \<in> set atts. att \<noteq> [] \<and> (\<forall>x \<in> set att. length x = 1)" by fastforce
  from p have "\<forall>c. (\<forall>att \<in> set atts. att \<noteq> [] \<and> (\<forall>x \<in> set att. length x = c)) \<longrightarrow>
      length (fst (snd (projr ?r1))) = 4 * c" by (elim conjE)
  then have "(\<forall>att \<in> set atts. att \<noteq> [] \<and> (\<forall>x \<in> set att. length x = 1)) \<longrightarrow>
      length (fst (snd (projr ?r1))) = 4 * 1" by (rule spec)
  from this hc1 have "length (fst (snd (projr ?r1))) = 4 * 1" by (rule mp)
  then have c1: "length (fst (snd (projr ?r1))) = 4" by simp
  from relevance_is_summed_over_the_batch[where lib = toy_lib and s = ex_engine and d = ?d
      and out = "fst (projr ?r1)" and rel = "fst (snd (projr ?r1))" and s' = "snd (snd (projr ?r1))"
      and ?out2.0 = "fst (projr ?r2)" and ?rel2.0 = "fst (snd (projr ?r2))" and ?s2.0 = "snd (snd (projr ?r2))", THEN conjunct2, THEN mp, OF r2]
  obtain atts2 where
    q: "length atts2 = 4 \<and>
         (\<forall>k < 4. \<exists>outp.
            attributor toy_lib EpsilonPlusFlat (weights ex_engine) ?d [eye4_row k] = Inr (outp, atts2 ! k)) \<and>
         fst (snd (projr ?r2)) = concat (map sum0 atts2) \<and>
         (\<forall>c. (\<forall>att \<in> set atts2. att \<noteq> [] \<and> (\<forall>x \<in> set att. length x = c)) \<longrightarrow>
              length (fst (snd (projr ?r2))) = 4 * c)"
    by (elim exE)
  then have "\<forall>k < length atts2. atts2 ! k = ?d" by (simp add: at)
  then have "\<forall>att \<in> set atts2. att = ?d" by (auto simp: in_set_conv_nth)
  then have hc2: "\<forall>att \<in> set atts2. att \<noteq> [] \<and> (\<forall>x \<in> set att. length x = 1)" by fastforce
  from q have "\<forall>c. (\<forall>att \<in> set atts2. att \<noteq> [] \<and> (\<forall>x \<in> set att. length x = c)) \<longrightarrow>
      length (fst (snd (projr ?r2))) = 4 * c" by (elim conjE)
  then have "(\<forall>att \<in> set atts2. att \<noteq> [] \<and> (\<forall>x \<in> set att. length x = 1)) \<longrightarrow>
      length (fst (snd (projr ?r2))) = 4 * 1" by (rule spec)
  from this hc2 have "length (fst (snd (projr ?r2))) = 4 * 1" by (rule mp)
  then have c2: "length (fst (snd (projr ?r2))) = 4" by simp
  from a(1) c1 a(2) c2 show ?thesis by (intro conjI)
qed

text \<open>
  C8 as stated fails: on a batch of two inputs with one element each the routine returns
  four scores, not a score for each element of each input, and the two inputs exchanged
  give the same relevance, although the attribution itself tells them apart.
\<close>

theorem relevance_not_per_input:
  "map_sum id (fst \<circ> snd) (epsilonAlpha2Beta1 toy_lib ex_engine [[1], [2]]) = Inr [3, 3, 3, 3] \<and>
   map_sum id (fst \<circ> snd) (epsilonAlpha2Beta1 toy_lib ex_engine [[2], [1]]) = Inr [3, 3, 3, 3] \<and>
   attributor toy_lib EpsilonAlpha2Beta1 (weights ex_engine) [[1], [2]] (replicate 2 (eye4_row 0))
     = Inr (replicate 2 (eye4_row 0), [[1], [2]])"
  by code_simp

section \<open>Evaluation on the test set\<close>

lemma isl_thenE_left: "isl m \<Longrightarrow> isl (thenE m f)"
  by (cases m) (simp_all add: thenE_def)

lemma isl_thenE_right: "(\<And>x. isl (f x)) \<Longrightarrow> isl (thenE m f)"
  by (cases m) (simp_all add: thenE_def)

lemma item_extend_NdArray: "isl (item_extend (NdArray arr) k rows)"
  by (simp add: item_extend_def)

lemma lrp_loop_raises: "isl (lrp_loop lib (i # is) s d k lrp_output relevance)"
proof (cases "epsilonAlpha2Beta1 lib s d")
  case (Inl e)
  then show ?thesis by (simp add: thenE_def)
next
  case (Inr p)
  obtain out attribution s1 where p: "p = (out, attribution, s1)" by (cases p)
  have "isl (thenE (item_extend (NdArray out) k out) f)" for f :: "lrp_value \<Rightarrow> error + 'e"
    by (rule isl_thenE_left) (rule item_extend_NdArray)
  with Inr p show ?thesis by (simp add: thenE_Inr)
qed

lemma evaluate_batch_raises: "isl (evaluate_batch lib s vars eval_data)"
proof -
  have l: "isl (thenE (lrp_loop lib [0..<4] s1 d k lrp_output relevance) f)"
    for s1 d k lrp_output relevance and f :: "_ \<Rightarrow> error + 'e"
    by (rule isl_thenE_left) (simp add: upt_conv_Cons lrp_loop_raises del: lrp_loop.simps)
  show ?thesis
    unfolding evaluate_batch_def
    by (rule isl_thenE_right, clarify, rule isl_thenE_right, rule l)
qed

lemma evaluate_batches_vars:
  "evaluate_batches lib s vars loader = Inr (vars', s') \<Longrightarrow> vars' = vars \<and> s' = s"
proof (induction loader)
  case Nil
  then show ?case by simp
next
  case (Cons x xs)
  show ?case
  proof (cases x)
    case (Inl e)
    with Cons.prems show ?thesis by (simp split: if_splits)
  next
    case (Inr b)
    from evaluate_batch_raises[of lib s vars b] obtain e where
      "evaluate_batch lib s vars b = Inl e" by (cases "evaluate_batch lib s vars b") simp_all
    with Cons.prems Inr show ?thesis by (simp add: thenE_def)
  qed
qed

lemma evaluate_finish_no_batches: "e_iterations vars = 0 \<Longrightarrow> evaluate_finish lib s vars = Inl ZeroDivisionError"
  by (simp add: evaluate_finish_def)

text \<open>
  C4 on the code. \<open>evaluate\<close> never completes: with no test batch the average loss
  divides by zero, and in the first test batch the assignment
  \<open>lrp_output, attribution = self.epsilonAlpha2Beta1(...)\<close> rebinds the list
  \<open>lrp_output\<close> to the array the routine returns, so that
  \<open>lrp_output[eval_iterations].extend(lrp_output)\<close> asks a row of that array for
  \<open>extend\<close> and raises. The six \<open>np.save\<close> calls are never reached. On the example
  engine, rank 0 with a test set of two batches, the run ends in \<open>AttributeError\<close>.
\<close>

theorem evaluate_never_completes:
  "isl (evaluate lib s) \<and> evaluate toy_lib ex_engine = Inl AttributeError"
proof
  let ?s1 = "emit ModelEval ((emit (Print (''evaluating in directory:  '' @ dirpath s)) s)\<lparr>training := False\<rparr>)"
  show "isl (evaluate lib s)"
  proof (cases "data_loaders ?s1 ''test''")
    case None
    then show ?thesis by (simp add: evaluate_def Let_def)
  next
    case (Some test_loader)
    show ?thesis
    proof (cases "evaluate_batches lib ?s1 eval_vars_init test_loader")
      case (Inl e)
      with Some show ?thesis by (simp add: evaluate_def Let_def thenE_def)
    next
      case (Inr p)
      obtain vars s2 where p: "p = (vars, s2)" by (cases p)
      from evaluate_batches_vars[OF Inr[unfolded p]] have "vars = eval_vars_init" by simp
      then have "e_iterations vars = 0" by (simp add: eval_vars_init_def)
      then have "evaluate_finish lib s2 vars = Inl ZeroDivisionError"
        by (rule evaluate_finish_no_batches)
      with Some Inr p show ?thesis
        by (simp add: evaluate_def Let_def thenE_def)
    qed
  qed
  show "evaluate toy_lib ex_engine = Inl AttributeError"
    by (rule Inl_by_parts; code_simp)
qed

text \<open>
  C3 on the code. The test loop never gets past its first batch: whatever follows the first
  batch, the outcome is that of the first batch alone, and it is an error. On the example
  engine the first call of \<open>epsilonAlpha2Beta1\<close> on the first batch invokes the
  gradient attribution once for each class 0, 1, 2, 3, with the one-hot target of that class
  tiled over the batch, and the \<open>extend\<close> that follows raises \<open>AttributeError\<close>:
  the second batch of the test set gets no attribution at all.
\<close>

theorem attribution_stops_in_the_first_batch:
  "evaluate_batches lib s vars (Inr eval_data # rest) = evaluate_batches lib s vars [Inr eval_data] \<and>
   isl (evaluate_batches lib s vars [Inr eval_data]) \<and>
   evaluate_batches toy_lib ex_engine eval_vars_init [Inr ex_batch, Inr ex_batch] = Inl AttributeError \<and>
   gradient_targets (new_events ex_engine
       (snd (snd (projr (epsilonAlpha2Beta1 toy_lib ex_engine (b_data ex_batch))))))
     = map (\<lambda>k. replicate 2 (eye4_row k)) [0, 1, 2, 3] \<and>
   item_extend (NdArray (fst (projr (epsilonAlpha2Beta1 toy_lib ex_engine (b_data ex_batch))))) 0
       (fst (projr (epsilonAlpha2Beta1 toy_lib ex_engine (b_data ex_batch)))) = Inl AttributeError"
proof (intro conjI)
  from evaluate_batch_raises[of lib s vars eval_data] obtain e where
    e: "evaluate_batch lib s vars eval_data = Inl e"
    by (cases "evaluate_batch lib s vars eval_data") simp_all
  then show "evaluate_batches lib s vars (Inr eval_data # rest) = evaluate_batches lib s vars [Inr eval_data]"
    by (simp add: thenE_def)
  from e show "isl (evaluate_batches lib s vars [Inr eval_data])" by (simp add: thenE_def)
  show "evaluate_batches toy_lib ex_engine eval_vars_init [Inr ex_batch, Inr ex_batch] = Inl AttributeError"
    by (rule Inl_by_parts; code_simp)
  show "gradient_targets (new_events ex_engine
       (snd (snd (projr (epsilonAlpha2Beta1 toy_lib ex_engine (b_data ex_batch))))))
     = map (\<lambda>k. replicate 2 (eye4_row k)) [0, 1, 2, 3]"
    by code_simp
  show "item_extend (NdArray (fst (projr (epsilonAlpha2Beta1 toy_lib ex_engine (b_data ex_batch))))) 0
       (fst (projr (epsilonAlpha2Beta1 toy_lib ex_engine (b_data ex_batch)))) = Inl AttributeError"
    by code_simp
qed

end
